theory Spec2Isabelle
  imports Complex_Main
begin

section \<open>JavaScript values used by src/lib/utils.ts\<close>

text \<open>
  Optional object fields are \<open>option\<close> values: \<open>None\<close> is \<open>undefined\<close>.
  A string is truthy when it is defined and not empty; this is the test behind
  \<open>if (x)\<close>, \<open>x ? a : b\<close> and \<open>x || y\<close> on string-valued fields.
\<close>

definition truthy :: "string option \<Rightarrow> bool" where
  "truthy v = (case v of None \<Rightarrow> False | Some s \<Rightarrow> s \<noteq> [])"

text \<open>\<open>a || ''''\<close> on an optional string.\<close>

definition orEmpty :: "string option \<Rightarrow> string" where
  "orEmpty v = (case v of None \<Rightarrow> [] | Some s \<Rightarrow> s)"

text \<open>
  What a read of a feature property gives and what the \<open>content\<close> of a node holds: a
  string, or a member that a plain object inherits from \<open>Object.prototype\<close>, named by
  its property name. Every such member is a function or, for \<open>__proto__\<close>, the prototype
  object itself, hence truthy.
\<close>

datatype Value = Text string | Member string

definition objectPrototype :: "string list" where
  "objectPrototype = [''constructor'', ''__defineGetter__'', ''__defineSetter__'',
     ''hasOwnProperty'', ''__lookupGetter__'', ''__lookupSetter__'', ''isPrototypeOf'',
     ''propertyIsEnumerable'', ''toString'', ''valueOf'', ''__proto__'', ''toLocaleString'']"

text \<open>
  \<open>object[name]\<close> on a plain object with the own string properties \<open>ps\<close>: an own
  property wins, then the prototype is asked, else the read gives \<open>undefined\<close>.
\<close>

definition getProperty :: "(string \<rightharpoonup> string) \<Rightarrow> string \<Rightarrow> Value option" where
  "getProperty ps name =
     (case ps name of
        Some v \<Rightarrow> Some (Text v)
      | None \<Rightarrow> if name \<in> set objectPrototype then Some (Member name) else None)"

fun truthyRead :: "Value option \<Rightarrow> bool" where
  "truthyRead None = False"
| "truthyRead (Some (Text s)) = (s \<noteq> [])"
| "truthyRead (Some (Member n)) = True"

text \<open>
  The string a template literal makes of a value. An inherited function prints as
  native code under its own name (\<open>constructor\<close> is the function \<open>Object\<close>), the
  prototype object as \<open>[object Object]\<close>.
\<close>

fun valueText :: "Value \<Rightarrow> string" where
  "valueText (Text s) = s"
| "valueText (Member n) =
     (if n = ''__proto__'' then ''[object Object]''
      else ''function '' @ (if n = ''constructor'' then ''Object'' else n)
             @ ''() { [native code] }'')"

text \<open>\<open>data.content || ""\<close> inside the template literal of the renderer.\<close>

definition contentText :: "Value option \<Rightarrow> string" where
  "contentText c = (case c of None \<Rightarrow> [] | Some v \<Rightarrow> valueText v)"

text \<open>\<open>Array.prototype.join\<close> on an array of strings.\<close>

fun join :: "string \<Rightarrow> string list \<Rightarrow> string" where
  "join sep [] = []"
| "join sep [x] = x"
| "join sep (x # y # ys) = x @ sep @ join sep (y # ys)"

text \<open>
  \<open>clsx\<close> (an external package) on an array of strings: the truthy entries,
  separated by single spaces.
\<close>

definition clsx :: "string list \<Rightarrow> string" where
  "clsx cs = join '' '' (filter (\<lambda>c. c \<noteq> []) cs)"

text \<open>
  What the code and the map engine throw: a TypeError (a field read on \<open>undefined\<close>),
  the two errors of the shorthand parser, a failed fetch, and the engine's refusal to
  add a source or a layer under an id that is in use.
\<close>

datatype error =
    TypeError
  | InvalidLegend
  | UnsupportedShorthand
  | FetchFailed
  | SourceExists string
  | LayerExists string

text \<open>Sequencing of two steps that may throw.\<close>

definition andThen :: "error + 'a \<Rightarrow> ('a \<Rightarrow> error + 'b) \<Rightarrow> error + 'b" where
  "andThen r k = (case r of Inl err \<Rightarrow> Inl err | Inr x \<Rightarrow> k x)"

section \<open>Content model (src/types.ts)\<close>

text \<open>
  The record form of a content item. The fields are those of the object type in
  \<open>ContentTag\<close>; \<open>class\<close> is a list of class names, as \<open>transformMixedTagToHTMLObject\<close>
  passes it on to the \<open>class\<close> of an \<open>HTMLObject\<close>. The \<open>children\<close> field of the type
  and any other key of the object (those of a nested tag map, say) are read by no
  function of utils.ts and are left out.
\<close>

record ItemFields =
  item_property :: "string option"
  item_else :: "string option"
  item_str :: "string option"
  item_href :: "string option"
  item_text :: "string option"
  item_src :: "string option"
  item_alt :: "string option"
  item_class :: "string list option"
  item_id :: "string option"

text \<open>The object \<open>{}\<close>: every field undefined.\<close>

definition noFields :: ItemFields where
  "noFields = \<lparr>item_property = None, item_else = None, item_str = None, item_href = None,
     item_text = None, item_src = None, item_alt = None, item_class = None, item_id = None\<rparr>"

text \<open>An item is a raw string or a record; \<open>typeof item === "object"\<close> holds for the record.\<close>

datatype ContentItem = Raw string | Obj ItemFields

fun isObject :: "ContentItem \<Rightarrow> bool" where
  "isObject (Raw s) = False"
| "isObject (Obj r) = True"

text \<open>Reading a field of an item: a string has none of the fields.\<close>

fun fieldOf :: "(ItemFields \<Rightarrow> 'a option) \<Rightarrow> ContentItem \<Rightarrow> 'a option" where
  "fieldOf f (Raw s) = None"
| "fieldOf f (Obj r) = f r"

text \<open>The value under a tag name: an array of items, or a single item that is not an array.\<close>

datatype TagValue = Items "ContentItem list" | Single ContentItem

text \<open>
  A \<open>ContentTag\<close> is an object keyed by tag name, given as its entries in the order of
  \<open>Object.keys\<close>; \<open>Object.keys(tag)[0]\<close> is the key of the first entry.
\<close>

type_synonym ContentTag = "(string \<times> TagValue) list"

text \<open>
  The render tree \<open>HTMLObject\<close>. \<open>style\<close> is one object of CSS declarations (as
  \<open>parseLegend\<close> builds it) and \<open>props\<close> an array of objects; both are entry lists.
\<close>

datatype HTMLObject = HTMLObject
  (tag: "string option")
  (content: "Value option")
  (node_class: "string list option")
  (style: "(string \<times> string) list option")
  (props: "(string \<times> string) list list option")
  (node_id: "string option")
  (key: "string option")
  (children: "HTMLObject list option")

text \<open>
  Modelled from the spec: the event type \<open>MapLayerMouseEvent\<close> belongs to maplibre-gl,
  which is not among the sources. A listener receives
  \<open>{ lngLat, features: [{ properties: map<string,string> }] }\<close>; \<open>features\<close> and the
  \<open>properties\<close> of a feature may be missing, as the optional chaining of
  \<open>resolveContent\<close> allows for.
\<close>

record Feature =
  properties :: "(string \<rightharpoonup> string) option"

record MapLayerMouseEvent =
  lngLat :: "real \<times> real"
  features :: "Feature list option"

section \<open>Tree transformer\<close>

text \<open>\<open>e?.features?.[0]?.properties\<close>\<close>

definition eventProperties :: "MapLayerMouseEvent option \<Rightarrow> (string \<rightharpoonup> string) option" where
  "eventProperties e =
     (case e of
        None \<Rightarrow> None
      | Some ev \<Rightarrow>
          (case features ev of
             None \<Rightarrow> None
           | Some [] \<Rightarrow> None
           | Some (f # fs) \<Rightarrow> properties f))"

text \<open>The helper \<open>resolveContent\<close> of \<open>transformMixedTagToHTMLObject\<close> (it closes over \<open>e\<close>).\<close>

definition resolveContent :: "MapLayerMouseEvent option \<Rightarrow> ContentItem \<Rightarrow> Value" where
  "resolveContent e contentBlock =
     (if truthy (fieldOf item_str contentBlock)
      then Text (orEmpty (fieldOf item_str contentBlock))
      else if truthy (fieldOf item_property contentBlock) \<and> eventProperties e \<noteq> None then
        (let v = getProperty (the (eventProperties e))
                   (orEmpty (fieldOf item_property contentBlock))
         in if truthyRead v then the v
            else if truthy (fieldOf item_else contentBlock)
              then Text (orEmpty (fieldOf item_else contentBlock))
            else Text [])
      else if truthy (fieldOf item_else contentBlock)
        then Text (orEmpty (fieldOf item_else contentBlock))
      else Text [])"

text \<open>\<open>tagContent[0]?.class || []\<close>\<close>

definition firstClass :: "ContentItem list \<Rightarrow> string list" where
  "firstClass tagContent =
     (case tagContent of
        [] \<Rightarrow> []
      | c # cs \<Rightarrow> (case fieldOf item_class c of None \<Rightarrow> [] | Some cl \<Rightarrow> cl))"

text \<open>\<open>tagContent[0]?.href ? [{ href: tagContent[0].href }] : []\<close>\<close>

definition firstHref :: "ContentItem list \<Rightarrow> (string \<times> string) list list" where
  "firstHref tagContent =
     (case tagContent of
        [] \<Rightarrow> []
      | c # cs \<Rightarrow>
          (if truthy (fieldOf item_href c)
           then [[(''href'', orEmpty (fieldOf item_href c))]] else []))"

text \<open>Collects the results of a \<open>map\<close> whose callback may throw: the first error wins.\<close>

fun collect :: "(error + 'a) list \<Rightarrow> error + 'a list" where
  "collect [] = Inr []"
| "collect (Inl err # rs) = Inl err"
| "collect (Inr x # rs) = (case collect rs of Inl err \<Rightarrow> Inl err | Inr xs \<Rightarrow> Inr (x # xs))"

text \<open>The length of the item array under the first key; the measure of the recursion below.\<close>

fun itemCount :: "ContentTag \<Rightarrow> nat" where
  "itemCount ((tagName, Items tagContent) # rest) = length tagContent"
| "itemCount other = 0"

text \<open>
  \<open>transformMixedTagToHTMLObject\<close>. An object with no key has \<open>tagName = undefined\<close> and
  takes the branch of a value that is not an array. On an empty array both
  \<open>tagContent[0].src\<close> and \<open>resolveContent(tagContent[0])\<close> read a field of
  \<open>undefined\<close>, which throws a TypeError.
\<close>

function transformMixedTagToHTMLObject ::
  "ContentTag \<Rightarrow> MapLayerMouseEvent option \<Rightarrow> error + HTMLObject" where
  "transformMixedTagToHTMLObject [] e =
     Inr (HTMLObject None (Some (Text [])) (Some []) None (Some []) None None (Some []))"
| "transformMixedTagToHTMLObject ((tagName, Single v) # rest) e =
     Inr (HTMLObject (Some tagName) (Some (Text [])) (Some []) None (Some []) None None (Some []))"
| "transformMixedTagToHTMLObject ((tagName, Items tagContent) # rest) e =
     (if length tagContent > 1 then
        (case collect (map (\<lambda>child.
                 if isObject child
                 then transformMixedTagToHTMLObject [(tagName, Items [child])] e
                 else Inr (HTMLObject (Some ''span'') (Some (resolveContent e child))
                             None None None None None None))
               tagContent) of
           Inl err \<Rightarrow> Inl err
         | Inr cs \<Rightarrow>
             Inr (HTMLObject (Some tagName) None (Some (firstClass tagContent)) None
                    (Some (firstHref tagContent)) None None (Some cs)))
      else if tagName = ''img'' \<or> tagName = ''iframe'' then
        (case tagContent of
           [] \<Rightarrow> Inl TypeError
         | c # cs \<Rightarrow>
             Inr (HTMLObject (Some tagName) (Some (Text [])) (Some (firstClass tagContent)) None
                    (Some [[(''src'', orEmpty (fieldOf item_src c))],
                           [(''alt'', orEmpty (fieldOf item_alt c))]])
                    None None None))
      else
        (case tagContent of
           [] \<Rightarrow> Inl TypeError
         | c # cs \<Rightarrow>
             Inr (HTMLObject (Some tagName) (Some (resolveContent e c))
                    (Some (firstClass tagContent)) None None None None (Some []))))"
  by pat_completeness auto
termination
  by (relation "measure (\<lambda>(tg, e). itemCount tg)") auto

text \<open>\<open>transformMixedBlockToHTMLObject\<close>, on the \<open>content\<close> of the block.\<close>

definition transformMixedBlockToHTMLObject ::
  "ContentTag list \<Rightarrow> MapLayerMouseEvent option \<Rightarrow> error + HTMLObject list" where
  "transformMixedBlockToHTMLObject block e =
     collect (map (\<lambda>tg. transformMixedTagToHTMLObject tg e) block)"

section \<open>Renderer\<close>

text \<open>One entry of \<open>props\<close>: \<open>`${Object.keys(value)}=${Object.values(value)}`\<close>.\<close>

definition renderProp :: "(string \<times> string) list \<Rightarrow> string" where
  "renderProp v = join '','' (map fst v) @ ''='' @ join '','' (map snd v)"

definition renderStyle :: "(string \<times> string) list \<Rightarrow> string" where
  "renderStyle st = join '';'' (map (\<lambda>(k, v). k @ '': '' @ v) st)"

definition optList :: "'a list option \<Rightarrow> 'a list" where
  "optList v = (case v of None \<Rightarrow> [] | Some xs \<Rightarrow> xs)"

text \<open>The double-quote character of the attribute templates.\<close>

definition dquote :: string where
  "dquote = [CHR 0x22]"

fun renderHTMLObject :: "HTMLObject \<Rightarrow> string" where
  "renderHTMLObject (HTMLObject tg cont cl st ps ident ky chs) =
     (if \<not> truthy tg then []
      else
        (let children = concat (map renderHTMLObject (case chs of None \<Rightarrow> [] | Some cs \<Rightarrow> cs));
             props = join '' '' (map renderProp (optList ps));
             classes = clsx (optList cl);
             ident' = (if truthy ident then ''id='' @ dquote @ orEmpty ident @ dquote else []);
             key' = (if truthy ky then ''key='' @ dquote @ orEmpty ky @ dquote else []);
             classList = (if classes \<noteq> [] then ''class='' @ dquote @ classes @ dquote else []);
             styleList = (case st of
                            None \<Rightarrow> []
                          | Some s \<Rightarrow> ''style='' @ dquote @ renderStyle s @ dquote)
         in ''<'' @ orEmpty tg @ '' '' @ classList @ '' '' @ styleList @ '' '' @ ident' @ '' ''
              @ key' @ '' '' @ props @ ''>'' @ contentText cont @ children
              @ ''</'' @ orEmpty tg @ ''>''))"

definition renderHTMLObjects :: "HTMLObject list \<Rightarrow> string" where
  "renderHTMLObjects data = concat (map renderHTMLObject data)"

section \<open>Legend shorthand\<close>

record LegendItem =
  color :: string
  label :: string

text \<open>\<open>items\<close> is \<open>None\<close> when the field is missing or is not an array.\<close>

record Legend =
  title :: "string option"
  items :: "LegendItem list option"

text \<open>
  The value found under a key of a shorthand object: \<open>null\<close>, a string, or a legend
  object. The object passed to \<open>parseShorthand\<close> is its list of entries.
\<close>

datatype ShorthandValue = Null | Str string | LegendObject Legend

type_synonym Shorthand = "(string \<times> ShorthandValue) list"

fun truthyValue :: "ShorthandValue option \<Rightarrow> bool" where
  "truthyValue None = False"
| "truthyValue (Some Null) = False"
| "truthyValue (Some (Str s)) = (s \<noteq> [])"
| "truthyValue (Some (LegendObject lg)) = True"

definition legendEntry :: "LegendItem \<Rightarrow> HTMLObject" where
  "legendEntry item =
     HTMLObject (Some ''li'') None None None None None None
       (Some [HTMLObject (Some ''span'') None (Some [''legend-color''])
                (Some [(''background-color'', color item)]) None None None None,
              HTMLObject (Some ''span'') (Some (Text (label item))) (Some [''legend-label''])
                None None None None None])"

text \<open>
  \<open>parseLegend\<close>. The first test throws for \<open>null\<close>, for a string (it has no
  \<open>items\<close>) and for an object whose \<open>items\<close> is missing or not an array. The closing
  \<open>filter(Boolean)\<close> keeps every entry, since each is an object.
\<close>

fun parseLegend :: "ShorthandValue \<Rightarrow> error + HTMLObject" where
  "parseLegend Null = Inl InvalidLegend"
| "parseLegend (Str s) = Inl InvalidLegend"
| "parseLegend (LegendObject legend) =
     (case items legend of
        None \<Rightarrow> Inl InvalidLegend
      | Some its \<Rightarrow>
          Inr (HTMLObject (Some ''div'') None (Some [''menu-item'']) None None None None
                 (Some ((if truthy (title legend)
                         then [HTMLObject (Some ''h3'') (map_option Text (title legend))
                                 None None None None None None]
                         else [])
                        @ [HTMLObject (Some ''ul'') None None None None None None
                             (Some (map legendEntry its))]))))"

text \<open>\<open>parseShorthand\<close>: \<open>data.legend\<close> is the value under the key \<open>legend\<close>.\<close>

definition parseShorthand :: "Shorthand \<Rightarrow> error + HTMLObject list" where
  "parseShorthand data =
     (if truthyValue (map_of data ''legend'')
      then (case parseLegend (the (map_of data ''legend'')) of
              Inl err \<Rightarrow> Inl err
            | Inr node \<Rightarrow> Inr [node])
      else Inl UnsupportedShorthand)"

section \<open>Layer model (src/types.ts)\<close>

datatype DataType = GeoJSON | Raster | Image | Vector

datatype EventType = Click | Mousemove | Mouseenter | Mouseleave

record MapEvent =
  event_type :: EventType
  event_content :: "ContentTag list"

text \<open>A paint object, as its entries; \<open>{}\<close> is the empty list.\<close>

type_synonym Paint = "(string \<times> string) list"

text \<open>
  \<open>MapLayer\<close>: the four interfaces share most fields and \<open>loadMapLayers\<close> reads them
  on any layer, so one record with the discriminant \<open>data-type\<close> holds them all; a field
  a variant does not have is \<open>None\<close>. Numbers are reals.
\<close>

record MapLayer =
  data_type :: DataType
  layer_id :: string
  layer_label :: "string option"
  url :: "string option"
  toggle :: "bool option"
  visible :: "bool option"
  layer_type :: "string option"
  source_layer :: "string option"
  paint :: "Paint option"
  tileSize :: "real option"
  coordinates :: "(real \<times> real) list option"
  minzoom :: "real option"
  maxzoom :: "real option"
  mouseEvent :: "MapEvent list option"

text \<open>The document a geojson layer fetches, as far as the callback reads it.\<close>

record Geometry =
  geometry_type :: string
  geometry_coordinates :: "real list"

record LonLat =
  longitude :: real
  latitude :: real

record GeoFeature =
  geometry :: "Geometry option"
  feature_properties :: "LonLat option"

record GeoData =
  geo_features :: "GeoFeature list option"

section \<open>The map engine and the document\<close>

text \<open>
  Modelled from the spec: the map engine (maplibre-gl) and the document are not among
  the sources. The engine exposes \<open>getSource\<close>/\<open>addSource\<close>, \<open>getLayer\<close>/\<open>addLayer\<close>,
  \<open>getLayoutProperty\<close>/\<open>setLayoutProperty\<close>, a popup with
  \<open>setLngLat\<close>/\<open>setHTML\<close>/\<open>addTo\<close>/\<open>remove\<close> and \<open>on(type, layerId, handler)\<close>; adding a
  source or a layer under an id in use is an error of the engine. Their state is what
  the calls of \<open>loadMapLayers\<close> read and write: the sources and layers by id, the listeners
  registered with \<open>map.on\<close>, the popups, the ids of the elements of the document, and the
  toggle buttons created so far. \<open>pending\<close> holds the fetches in flight, each with the
  layer and the \<open>visibility\<close> argument its callback closes over; \<open>uncaught\<close> collects the
  errors that reach the event loop (rejected promises, exceptions of listeners).
\<close>

datatype SourceSpec =
    GeoJSONSource GeoData
  | RasterSource "string list" real
  | ImageSource string "(real \<times> real) list"
  | VectorSource "string list" real real

record LayerSpec =
  spec_id :: string
  spec_type :: "string option"
  spec_source :: string
  spec_source_layer :: "string option"
  spec_paint :: Paint
  spec_visibility :: string

text \<open>
  The two closures \<open>loadMapLayers\<close> registers: the listener of an event binding (over
  its popup, the layer id and the binding) and the \<open>mouseleave\<close> listener that removes
  the popup. A popup is referred to by its index in \<open>popups\<close>.
\<close>

datatype Listener = PopupListener nat string MapEvent | RemoveListener nat

record ToggleButton =
  textContent :: string
  className :: string
  target :: string
  attached :: bool

record World =
  container_id :: string
  sources :: "(string \<times> SourceSpec) list"
  layers :: "LayerSpec list"
  listeners :: "(EventType \<times> string \<times> Listener) list"
  popups :: "((real \<times> real) \<times> string) option list"
  elements :: "string list"
  buttons :: "ToggleButton list"
  pending :: "(MapLayer \<times> bool) list"
  uncaught :: "error list"

text \<open>A new map in container \<open>c\<close> of a document whose elements have the ids \<open>els\<close>.\<close>

definition newWorld :: "string \<Rightarrow> string list \<Rightarrow> World" where
  "newWorld c els = \<lparr>container_id = c, sources = [], layers = [], listeners = [], popups = [],
     elements = els, buttons = [], pending = [], uncaught = []\<rparr>"

definition getSource :: "string \<Rightarrow> World \<Rightarrow> SourceSpec option" where
  "getSource i w = map_of (sources w) i"

text \<open>\<open>addSource\<close> throws when the id is in use.\<close>

definition addSource :: "string \<Rightarrow> SourceSpec \<Rightarrow> World \<Rightarrow> error + World" where
  "addSource i src w =
     (if getSource i w \<noteq> None then Inl (SourceExists i)
      else Inr (w\<lparr>sources := sources w @ [(i, src)]\<rparr>))"

definition getLayer :: "string \<Rightarrow> World \<Rightarrow> LayerSpec option" where
  "getLayer i w = find (\<lambda>l. spec_id l = i) (layers w)"

text \<open>\<open>addLayer\<close> reports an error when the id is in use.\<close>

definition addLayer :: "LayerSpec \<Rightarrow> World \<Rightarrow> error + World" where
  "addLayer l w =
     (if getLayer (spec_id l) w \<noteq> None then Inl (LayerExists (spec_id l))
      else Inr (w\<lparr>layers := layers w @ [l]\<rparr>))"

text \<open>\<open>getLayoutProperty(id, "visibility")\<close>: \<open>undefined\<close> for a layer that does not exist.\<close>

definition getLayoutProperty :: "string \<Rightarrow> World \<Rightarrow> string option" where
  "getLayoutProperty i w = map_option spec_visibility (getLayer i w)"

text \<open>\<open>setLayoutProperty(id, "visibility", v)\<close>: no change for a layer that does not exist.\<close>

definition setLayoutProperty :: "string \<Rightarrow> string \<Rightarrow> World \<Rightarrow> World" where
  "setLayoutProperty i v w =
     w\<lparr>layers := map (\<lambda>l. if spec_id l = i then l\<lparr>spec_visibility := v\<rparr> else l) (layers w)\<rparr>"

text \<open>\<open>map.on(type, layerId, listener)\<close>\<close>

definition on :: "EventType \<Rightarrow> string \<Rightarrow> Listener \<Rightarrow> World \<Rightarrow> World" where
  "on ty i l w = w\<lparr>listeners := listeners w @ [(ty, i, l)]\<rparr>"

section \<open>Layer materializer: \<open>loadMapLayers\<close>\<close>

text \<open>\<open>forEach\<close> with a callback that may throw: the first exception ends the loop.\<close>

fun forEach :: "('a \<Rightarrow> World \<Rightarrow> error + World) \<Rightarrow> 'a list \<Rightarrow> World \<Rightarrow> error + World" where
  "forEach f [] w = Inr w"
| "forEach f (x # xs) w = andThen (f x w) (forEach f xs)"

text \<open>
  The callback of the first loop: a toggle button for a layer with \<open>toggle\<close>. The
  \<open>onclick\<close> handler closes over \<open>layer.id\<close>, kept as \<open>target\<close>; the button is appended
  only when the element \<open>`${map._container.id}-menu`\<close> exists.
\<close>

definition addToggle :: "MapLayer \<Rightarrow> World \<Rightarrow> World" where
  "addToggle layer w =
     (if toggle layer = Some True then
        w\<lparr>buttons := buttons w @
            [\<lparr>textContent = (case layer_label layer of None \<Rightarrow> layer_id layer | Some l \<Rightarrow> l),
              className = (if visible layer = Some True then ''active'' else []),
              target = layer_id layer,
              attached = (container_id w @ ''-menu'' \<in> set (elements w))\<rparr>]\<rparr>
      else w)"

text \<open>The \<open>onclick\<close> handler of button \<open>b\<close>.\<close>

definition onclick :: "nat \<Rightarrow> World \<Rightarrow> World" where
  "onclick b w =
     (let i = target (buttons w ! b) in
      if getLayoutProperty i w = Some ''visible'' then
        (setLayoutProperty i ''none'' w)
          \<lparr>buttons := (buttons w)[b := (buttons w ! b)\<lparr>className := []\<rparr>]\<rparr>
      else
        (setLayoutProperty i ''visible'' w)
          \<lparr>buttons := (buttons w)[b := (buttons w ! b)\<lparr>className := ''active''\<rparr>]\<rparr>)"

text \<open>
  The \<open>layout\<close> of every \<open>addLayer\<close> call:
  \<open>visibility ? "visible" : layer.visible ? "visible" : "none"\<close>.
\<close>

definition layoutVisibility :: "bool \<Rightarrow> MapLayer \<Rightarrow> string" where
  "layoutVisibility visibility layer =
     (if visibility then ''visible''
      else if visible layer = Some True then ''visible'' else ''none'')"

text \<open>\<open>layer.paint || {}\<close>\<close>

definition paintOf :: "MapLayer \<Rightarrow> Paint" where
  "paintOf layer = (case paint layer of None \<Rightarrow> [] | Some p \<Rightarrow> p)"

text \<open>\<open>n || d\<close> on an optional number: \<open>0\<close> and \<open>undefined\<close> give the default.\<close>

definition orDefault :: "real option \<Rightarrow> real \<Rightarrow> real" where
  "orDefault n d = (case n of None \<Rightarrow> d | Some x \<Rightarrow> if x = 0 then d else x)"

text \<open>The guarded registration that each branch repeats: source if absent, then layer if absent.\<close>

definition addIfAbsent :: "string \<Rightarrow> SourceSpec \<Rightarrow> LayerSpec \<Rightarrow> World \<Rightarrow> error + World" where
  "addIfAbsent i src l w =
     andThen (if getSource i w = None then addSource i src w else Inr w)
       (\<lambda>w1. if getLayer i w1 = None then addLayer l w1 else Inr w1)"

text \<open>
  The body of the \<open>then\<close> callback of a geojson fetch. Reading \<open>data.features\<close> of a
  document without features, or \<open>feature.properties.longitude\<close> of a feature with
  neither geometry nor properties, throws a TypeError.
\<close>

definition fixGeometry :: "GeoFeature \<Rightarrow> error + GeoFeature" where
  "fixGeometry feature =
     (if geometry feature \<noteq> None then Inr feature
      else (case feature_properties feature of
              None \<Rightarrow> Inl TypeError
            | Some ps \<Rightarrow>
                Inr (feature\<lparr>geometry :=
                       Some \<lparr>geometry_type = ''Point'',
                             geometry_coordinates = [longitude ps, latitude ps]\<rparr>\<rparr>)))"

definition geojsonLoaded :: "GeoData \<Rightarrow> MapLayer \<Rightarrow> bool \<Rightarrow> World \<Rightarrow> error + World" where
  "geojsonLoaded data layer visibility w =
     (case geo_features data of
        None \<Rightarrow> Inl TypeError
      | Some fs \<Rightarrow>
          (case collect (map fixGeometry fs) of
             Inl err \<Rightarrow> Inl err
           | Inr fs' \<Rightarrow>
               addIfAbsent (layer_id layer)
                 (GeoJSONSource (data\<lparr>geo_features := Some fs'\<rparr>))
                 \<lparr>spec_id = layer_id layer, spec_type = layer_type layer,
                  spec_source = layer_id layer, spec_source_layer = None,
                  spec_paint = paintOf layer,
                  spec_visibility = layoutVisibility visibility layer\<rparr> w))"

text \<open>
  The dispatch on \<open>data-type\<close> in the second loop. A geojson layer only starts its
  fetch; the other three register at once.
\<close>

definition registerLayer :: "bool \<Rightarrow> MapLayer \<Rightarrow> World \<Rightarrow> error + World" where
  "registerLayer visibility layer w =
     (case data_type layer of
        GeoJSON \<Rightarrow> Inr (w\<lparr>pending := pending w @ [(layer, visibility)]\<rparr>)
      | Raster \<Rightarrow>
          addIfAbsent (layer_id layer)
            (RasterSource [orEmpty (url layer)] (orDefault (tileSize layer) 256))
            \<lparr>spec_id = layer_id layer, spec_type = Some ''raster'',
             spec_source = layer_id layer, spec_source_layer = None,
             spec_paint = paintOf layer,
             spec_visibility = layoutVisibility visibility layer\<rparr> w
      | Image \<Rightarrow>
          addIfAbsent (layer_id layer)
            (ImageSource (orEmpty (url layer)) (optList (coordinates layer)))
            \<lparr>spec_id = layer_id layer, spec_type = Some ''raster'',
             spec_source = layer_id layer, spec_source_layer = None,
             spec_paint = paintOf layer,
             spec_visibility = layoutVisibility visibility layer\<rparr> w
      | Vector \<Rightarrow>
          addIfAbsent (layer_id layer)
            (VectorSource [orEmpty (url layer)] (orDefault (minzoom layer) 0)
               (orDefault (maxzoom layer) 22))
            \<lparr>spec_id = layer_id layer, spec_type = layer_type layer,
             spec_source = layer_id layer,
             spec_source_layer =
               Some (case source_layer layer of None \<Rightarrow> layer_id layer | Some sl \<Rightarrow> sl),
             spec_paint = paintOf layer,
             spec_visibility = layoutVisibility visibility layer\<rparr> w)"

text \<open>
  Event wiring of one layer: one popup for the layer, and one listener per binding,
  registered under the binding's type and the layer id.
\<close>

definition wireEvents :: "MapLayer \<Rightarrow> World \<Rightarrow> World" where
  "wireEvents layer w =
     (case mouseEvent layer of
        None \<Rightarrow> w
      | Some evs \<Rightarrow>
          foldl (\<lambda>w' ev. on (event_type ev) (layer_id layer)
                            (PopupListener (length (popups w)) (layer_id layer) ev) w')
            (w\<lparr>popups := popups w @ [None]\<rparr>) evs)"

text \<open>
  \<open>loadMapLayers\<close>, up to its return: the layers are the values of the group in the
  order of \<open>Object.values\<close>, \<open>None\<close> is a missing group.
\<close>

definition loadMapLayers :: "MapLayer list option \<Rightarrow> bool \<Rightarrow> World \<Rightarrow> error + World" where
  "loadMapLayers layerGroup visibility w =
     (case layerGroup of
        None \<Rightarrow> Inr w
      | Some ls \<Rightarrow>
          forEach (\<lambda>layer w'. andThen (registerLayer visibility layer w')
                                (\<lambda>w''. Inr (wireEvents layer w'')))
            ls (foldl (\<lambda>w' layer. addToggle layer w') w ls))"

section \<open>Events\<close>

text \<open>
  A listener called with the event \<open>e\<close>. The listener of a binding builds the popup
  content from the binding's content nodes, shows the popup at \<open>e.lngLat\<close>, and, for a
  \<open>mousemove\<close> binding, registers a \<open>mouseleave\<close> listener that removes the popup.
  Every content node is an object, so \<open>isContentTag\<close> holds for each.
\<close>

fun runListener :: "MapLayerMouseEvent \<Rightarrow> Listener \<Rightarrow> World \<Rightarrow> error + World" where
  "runListener e (PopupListener p i ev) w =
     (case collect (map (\<lambda>tg. transformMixedTagToHTMLObject tg (Some e)) (event_content ev)) of
        Inl err \<Rightarrow> Inl err
      | Inr nodes \<Rightarrow>
          (let popupContent = concat (map renderHTMLObject nodes);
               w1 = w\<lparr>popups := (popups w)[p := Some (lngLat e, popupContent)]\<rparr>
           in if event_type ev = Mousemove
              then Inr (on Mouseleave i (RemoveListener p) w1)
              else Inr w1))"
| "runListener e (RemoveListener p) w = Inr (w\<lparr>popups := (popups w)[p := None]\<rparr>)"

text \<open>
  The engine dispatching an event of type \<open>ty\<close> on layer \<open>i\<close>: the listeners
  registered for that type and layer at that moment are called in order of
  registration; an exception ends the dispatch and reaches the event loop.
\<close>

fun dispatch :: "MapLayerMouseEvent \<Rightarrow> Listener list \<Rightarrow> World \<Rightarrow> World" where
  "dispatch e [] w = w"
| "dispatch e (l # ls) w =
     (case runListener e l w of
        Inl err \<Rightarrow> w\<lparr>uncaught := uncaught w @ [err]\<rparr>
      | Inr w' \<Rightarrow> dispatch e ls w')"

definition fire :: "EventType \<Rightarrow> string \<Rightarrow> MapLayerMouseEvent \<Rightarrow> World \<Rightarrow> World" where
  "fire ty i e w =
     dispatch e (map (\<lambda>(t, j, l). l) (filter (\<lambda>(t, j, l). t = ty \<and> j = i) (listeners w))) w"

text \<open>
  The pending fetch number \<open>k\<close> settles: with \<open>None\<close> the fetch failed or the body was
  not JSON, with a document the \<open>then\<close> callback runs; a rejection stays with the
  promise.
\<close>

definition fetchDone :: "nat \<Rightarrow> GeoData option \<Rightarrow> World \<Rightarrow> World" where
  "fetchDone k res w =
     (if k < length (pending w) then
        (let (layer, visibility) = pending w ! k;
             w1 = w\<lparr>pending := take k (pending w) @ drop (Suc k) (pending w)\<rparr>
         in case res of
              None \<Rightarrow> w1\<lparr>uncaught := uncaught w1 @ [FetchFailed]\<rparr>
            | Some data \<Rightarrow>
                (case geojsonLoaded data layer visibility w1 of
                   Inl err \<Rightarrow> w1\<lparr>uncaught := uncaught w1 @ [err]\<rparr>
                 | Inr w2 \<Rightarrow> w2))
      else w)"

text \<open>A click on button \<open>b\<close>; only a button appended to the menu can be clicked.\<close>

definition click :: "nat \<Rightarrow> World \<Rightarrow> World" where
  "click b w = (if b < length (buttons w) \<and> attached (buttons w ! b) then onclick b w else w)"

text \<open>What happens to a map over time: calls of \<open>loadMapLayers\<close> and events.\<close>

datatype Action =
    Load "MapLayer list option" bool
  | FetchDone nat "GeoData option"
  | ClickToggle nat
  | Fire EventType string MapLayerMouseEvent

fun step :: "Action \<Rightarrow> World \<Rightarrow> error + World" where
  "step (Load layerGroup visibility) w = loadMapLayers layerGroup visibility w"
| "step (FetchDone k res) w = Inr (fetchDone k res w)"
| "step (ClickToggle b) w = Inr (click b w)"
| "step (Fire ty i e) w = Inr (fire ty i e w)"

definition run :: "Action list \<Rightarrow> World \<Rightarrow> error + World" where
  "run acts w = forEach step acts w"

section \<open>Notions used in the properties\<close>

text \<open>The engine's own invariant: no two sources and no two layers share an id.\<close>

definition uniqueIds :: "World \<Rightarrow> bool" where
  "uniqueIds w = (distinct (map fst (sources w)) \<and> distinct (map spec_id (layers w)))"

text \<open>How many sources, and how many layers, are registered under an id.\<close>

definition sourceCount :: "string \<Rightarrow> World \<Rightarrow> nat" where
  "sourceCount i w = length (filter (\<lambda>j. j = i) (map fst (sources w)))"

definition layerCount :: "string \<Rightarrow> World \<Rightarrow> nat" where
  "layerCount i w = length (filter (\<lambda>j. j = i) (map spec_id (layers w)))"

text \<open>The ids of the sources and of the layers, in order of registration.\<close>

definition sourceIds :: "World \<Rightarrow> string list" where
  "sourceIds w = map fst (sources w)"

definition layerIds :: "World \<Rightarrow> string list" where
  "layerIds w = map spec_id (layers w)"

text \<open>The ids of the layers of a group that register without a fetch.\<close>

definition syncIds :: "MapLayer set \<Rightarrow> string set" where
  "syncIds G = layer_id ` {l \<in> G. data_type l \<noteq> GeoJSON}"

text \<open>
  What a call of \<open>loadMapLayers\<close> on the layers \<open>G\<close> does to the registrations of the
  engine, from \<open>w\<close> to \<open>w'\<close>: sources and layers are only appended, under ids that were
  free and are pairwise different, each for a layer of \<open>G\<close> that is not geojson, each
  new layer with the layout and paint of its \<open>MapLayer\<close>; afterwards every such layer of
  \<open>G\<close> has its source and its layer; nothing reaches the event loop.
\<close>

definition registered :: "bool \<Rightarrow> MapLayer set \<Rightarrow> World \<Rightarrow> World \<Rightarrow> bool" where
  "registered v G w w' =
     (uncaught w' = uncaught w
      \<and> (\<exists>ss. sources w' = sources w @ ss \<and> distinct (map fst ss)
            \<and> set (map fst ss) \<inter> set (sourceIds w) = {}
            \<and> set (map fst ss) \<subseteq> syncIds G)
      \<and> (\<exists>ls. layers w' = layers w @ ls \<and> distinct (map spec_id ls)
            \<and> set (map spec_id ls) \<inter> set (layerIds w) = {}
            \<and> (\<forall>lay\<in>set ls. \<exists>l\<in>G. data_type l \<noteq> GeoJSON \<and> spec_id lay = layer_id l
                        \<and> spec_visibility lay = layoutVisibility v l
                        \<and> spec_paint lay = paintOf l))
      \<and> syncIds G \<subseteq> set (sourceIds w') \<inter> set (layerIds w'))"

text \<open>The errors of a registration under an id in use.\<close>

fun duplicateId :: "error \<Rightarrow> bool" where
  "duplicateId (SourceExists i) = True"
| "duplicateId (LayerExists i) = True"
| "duplicateId other = False"

text \<open>
  What any step preserves: the engine's invariant, the ids registered so far, and the
  absence of new duplicate-id errors at the event loop.
\<close>

definition keepsIds :: "World \<Rightarrow> World \<Rightarrow> bool" where
  "keepsIds w w' =
     ((uniqueIds w \<longrightarrow> uniqueIds w')
      \<and> set (sourceIds w) \<subseteq> set (sourceIds w')
      \<and> set (layerIds w) \<subseteq> set (layerIds w')
      \<and> (\<forall>err\<in>set (uncaught w'). duplicateId err \<longrightarrow> err \<in> set (uncaught w)))"

text \<open>A layer with nothing but its \<open>data-type\<close> and its id.\<close>

definition emptyLayer :: "DataType \<Rightarrow> string \<Rightarrow> MapLayer" where
  "emptyLayer dt i = \<lparr>data_type = dt, layer_id = i, layer_label = None, url = None,
     toggle = None, visible = None, layer_type = None, source_layer = None, paint = None,
     tileSize = None, coordinates = None, minzoom = None, maxzoom = None, mouseEvent = None\<rparr>"

text \<open>
  A fetched document that the callback can read: it has \<open>features\<close>, and every feature
  without a geometry has \<open>properties\<close> to build one from.
\<close>

definition readable :: "GeoData \<Rightarrow> bool" where
  "readable d =
     (case geo_features d of
        None \<Rightarrow> False
      | Some fs \<Rightarrow> list_all (\<lambda>f. geometry f \<noteq> None \<or> feature_properties f \<noteq> None) fs)"

text \<open>The layers of a group that start a fetch.\<close>

definition geojsonLayers :: "MapLayer list \<Rightarrow> MapLayer list" where
  "geojsonLayers g = filter (\<lambda>l. data_type l = GeoJSON) g"

text \<open>The \<open>mouseleave\<close> listeners registered on a layer id.\<close>

definition mouseleaveCount :: "string \<Rightarrow> World \<Rightarrow> nat" where
  "mouseleaveCount i w =
     length (filter (\<lambda>(t, j, l). t = Mouseleave \<and> j = i) (listeners w))"

section \<open>Properties of the tree transformer\<close>

lemma eventProperties_first:
  "features ev = Some (f # fs) \<Longrightarrow> eventProperties (Some ev) = properties f"
  by (simp add: eventProperties_def)

lemma resolveContent_cong:
  "eventProperties e1 = eventProperties e2 \<Longrightarrow> resolveContent e1 c = resolveContent e2 c"
  by (simp only: resolveContent_def)

lemma transform_single_item_cong:
  assumes "eventProperties e1 = eventProperties e2"
  shows "transformMixedTagToHTMLObject [(t, Items [c])] e1
       = transformMixedTagToHTMLObject [(t, Items [c])] e2"
  using resolveContent_cong[OF assms] by simp

lemma transform_cong:
  assumes "eventProperties e1 = eventProperties e2"
  shows "transformMixedTagToHTMLObject tg e1 = transformMixedTagToHTMLObject tg e2"
proof (cases tg)
  case Nil
  then show ?thesis by simp
next
  case (Cons kv rest)
  obtain t v where kv: "kv = (t, v)" by (cases kv)
  show ?thesis
  proof (cases v)
    case (Items its)
    have "map (\<lambda>child. if isObject child
                 then transformMixedTagToHTMLObject [(t, Items [child])] e1
                 else Inr (HTMLObject (Some ''span'') (Some (resolveContent e1 child))
                             None None None None None None)) its
        = map (\<lambda>child. if isObject child
                 then transformMixedTagToHTMLObject [(t, Items [child])] e2
                 else Inr (HTMLObject (Some ''span'') (Some (resolveContent e2 child))
                             None None None None None None)) its"
      using transform_single_item_cong[OF assms] resolveContent_cong[OF assms] by simp
    then show ?thesis unfolding Cons kv Items
      by (simp only: transformMixedTagToHTMLObject.simps(3)[of t its rest]
            resolveContent_cong[OF assms])
  next
    case (Single x)
    then show ?thesis using Cons kv by simp
  qed
qed

lemma resolveContent_raw: "resolveContent e (Raw t) = Text []"
  by (simp add: resolveContent_def truthy_def)

lemma resolveContent_no_property:
  "\<not> truthy (item_str r) \<Longrightarrow> \<not> truthy (item_property r) \<or> eventProperties e = None \<Longrightarrow>
   resolveContent e (Obj r) = Text (orEmpty (item_else r))"
  by (auto simp add: resolveContent_def truthy_def orEmpty_def split: option.splits)




text \<open>
  C10. The transform reads the event only through the property map of its first
  feature: two events whose feature lists start with the same feature give the same
  result on every content node, whatever the later features are.
\<close>

theorem transform_reads_first_feature_only:
  "features ev1 = Some (f # fs1) \<Longrightarrow> features ev2 = Some (f # fs2) \<Longrightarrow>
   transformMixedTagToHTMLObject tg (Some ev1) = transformMixedTagToHTMLObject tg (Some ev2)"
  by (rule transform_cong) (simp add: eventProperties_def)

theorem transform_reads_first_feature_only_witness:
  "transformMixedTagToHTMLObject
     [(''p'', Items [Obj (noFields\<lparr>item_property := Some ''name''\<rparr>)])]
     (Some \<lparr>lngLat = (0, 0),
            features = Some [\<lparr>properties = Some [''name'' \<mapsto> ''Lake Park'']\<rparr>,
                             \<lparr>properties = Some [''name'' \<mapsto> ''Other'']\<rparr>]\<rparr>)
   = transformMixedTagToHTMLObject
     [(''p'', Items [Obj (noFields\<lparr>item_property := Some ''name''\<rparr>)])]
     (Some \<lparr>lngLat = (1, 1),
            features = Some [\<lparr>properties = Some [''name'' \<mapsto> ''Lake Park'']\<rparr>]\<rparr>)"
proof -
  have h1: "features \<lparr>lngLat = (0, 0),
            features = Some [\<lparr>properties = Some [''name'' \<mapsto> ''Lake Park'']\<rparr>,
                             \<lparr>properties = Some [''name'' \<mapsto> ''Other'']\<rparr>]\<rparr>
        = Some (\<lparr>properties = Some [''name'' \<mapsto> ''Lake Park'']\<rparr>
                # [\<lparr>properties = Some [''name'' \<mapsto> ''Other'']\<rparr>])"
    by simp
  have h2: "features \<lparr>lngLat = (1, 1),
            features = Some [\<lparr>properties = Some [''name'' \<mapsto> ''Lake Park'']\<rparr>]\<rparr>
        = Some (\<lparr>properties = Some [''name'' \<mapsto> ''Lake Park'']\<rparr> # [])"
    by simp
  show ?thesis by (rule transform_reads_first_feature_only[OF h1 h2])
qed

lemma collect_map_Inr: "collect (map (\<lambda>x. Inr (h x)) xs) = Inr (map h xs)"
  by (induction xs) simp_all

lemma transform_single_item:
  "transformMixedTagToHTMLObject [(tagName, Items [c])] e =
     Inr (if tagName = ''img'' \<or> tagName = ''iframe''
          then HTMLObject (Some tagName) (Some (Text [])) (Some (firstClass [c])) None
                 (Some [[(''src'', orEmpty (fieldOf item_src c))],
                        [(''alt'', orEmpty (fieldOf item_alt c))]]) None None None
          else HTMLObject (Some tagName) (Some (resolveContent e c)) (Some (firstClass [c]))
                 None None None None (Some []))"
  by simp

lemma composite_children:
  "collect (map (\<lambda>child. if isObject child
                   then transformMixedTagToHTMLObject [(tagName, Items [child])] e
                   else Inr (HTMLObject (Some ''span'') (Some (resolveContent e child))
                               None None None None None None)) its)
   = Inr (map (\<lambda>child.
          if isObject child then
            (if tagName = ''img'' \<or> tagName = ''iframe''
             then HTMLObject (Some tagName) (Some (Text [])) (Some (firstClass [child])) None
                    (Some [[(''src'', orEmpty (fieldOf item_src child))],
                           [(''alt'', orEmpty (fieldOf item_alt child))]])
                    None None None
             else HTMLObject (Some tagName) (Some (resolveContent e child))
                    (Some (firstClass [child])) None None None None (Some []))
          else HTMLObject (Some ''span'') (Some (resolveContent e child))
                 None None None None None None) its)"
proof -
  have "map (\<lambda>child. if isObject child
                 then transformMixedTagToHTMLObject [(tagName, Items [child])] e
                 else Inr (HTMLObject (Some ''span'') (Some (resolveContent e child))
                             None None None None None None)) its
      = map (\<lambda>child. Inr ((\<lambda>child.
          if isObject child then
            (if tagName = ''img'' \<or> tagName = ''iframe''
             then HTMLObject (Some tagName) (Some (Text [])) (Some (firstClass [child])) None
                    (Some [[(''src'', orEmpty (fieldOf item_src child))],
                           [(''alt'', orEmpty (fieldOf item_alt child))]])
                    None None None
             else HTMLObject (Some tagName) (Some (resolveContent e child))
                    (Some (firstClass [child])) None None None None (Some []))
          else HTMLObject (Some ''span'') (Some (resolveContent e child))
                 None None None None None None) child)) its"
    by (rule map_cong[OF refl])
       (simp only: transform_single_item if_distrib[of Inr] split: if_splits)
  then show ?thesis by (simp only: collect_map_Inr)
qed

lemma composite_no_error:
  "1 < length its \<Longrightarrow> transformMixedTagToHTMLObject ((tagName, Items its) # rest) e \<noteq> Inl err"
  by (simp only: transformMixedTagToHTMLObject.simps(3)[of tagName its rest] if_True
        composite_children sum.case sum.distinct not_False_eq_True)

text \<open>
  C2, as the code has it. When the item array under the first key has more than one
  entry, the result is a composite node: its \<open>class\<close> and its optional \<open>href\<close> prop come
  from the first item, it has no \<open>content\<close>, and its children are one per item of the
  array, the first item included, in order. An item that is a record is transformed
  recursively as the only item of a node with the same tag name, so it becomes a leaf
  carrying the parent's tag (the \<open>img\<close>/\<open>iframe\<close> leaf for those tags); an item that is
  a raw string becomes a \<open>span\<close> whose content is the property resolution of that item.
\<close>

theorem composite_transform:
  "1 < length its \<Longrightarrow>
   transformMixedTagToHTMLObject ((tagName, Items its) # rest) e =
     Inr (HTMLObject (Some tagName) None (Some (firstClass its)) None (Some (firstHref its))
            None None
            (Some (map (\<lambda>child.
                      if isObject child then
                        (if tagName = ''img'' \<or> tagName = ''iframe''
                         then HTMLObject (Some tagName) (Some (Text [])) (Some (firstClass [child])) None
                                (Some [[(''src'', orEmpty (fieldOf item_src child))],
                                       [(''alt'', orEmpty (fieldOf item_alt child))]])
                                None None None
                         else HTMLObject (Some tagName) (Some (resolveContent e child))
                                (Some (firstClass [child])) None None None None (Some []))
                      else HTMLObject (Some ''span'') (Some (resolveContent e child))
                             None None None None None None)
                    its)))"
proof -
  assume "1 < length its"
  then have "transformMixedTagToHTMLObject ((tagName, Items its) # rest) e =
      (case collect (map (\<lambda>child.
                 if isObject child
                 then transformMixedTagToHTMLObject [(tagName, Items [child])] e
                 else Inr (HTMLObject (Some ''span'') (Some (resolveContent e child))
                             None None None None None None))
               its) of
           Inl err \<Rightarrow> Inl err
         | Inr cs \<Rightarrow>
             Inr (HTMLObject (Some tagName) None (Some (firstClass its)) None
                    (Some (firstHref its)) None None (Some cs)))"
    by (simp only: transformMixedTagToHTMLObject.simps(3)[of tagName its rest] if_True)
  then show ?thesis by (simp only: composite_children sum.case)
qed

text \<open>
  The composite of the specification,
  \<open>{a: [{class: ["link"], href: "https://x"}, {str: "click here"}]}\<close>: tag \<open>a\<close>, class
  \<open>["link"]\<close>, the prop \<open>href\<close>, and two children tagged \<open>a\<close>, one per item.
\<close>

theorem composite_transform_witness:
  "transformMixedTagToHTMLObject
     [(''a'', Items [Obj (noFields\<lparr>item_href := Some ''https://x'', item_class := Some [''link'']\<rparr>),
                     Obj (noFields\<lparr>item_str := Some ''click here''\<rparr>)])] None
   = Inr (HTMLObject (Some ''a'') None (Some [''link'']) None (Some [[(''href'', ''https://x'')]])
            None None
            (Some [HTMLObject (Some ''a'') (Some (Text [])) (Some [''link'']) None None None None (Some []),
                   HTMLObject (Some ''a'') (Some (Text ''click here'')) (Some []) None None None None
                     (Some [])]))"
proof -
  have len: "1 < length [Obj (noFields\<lparr>item_href := Some ''https://x'', item_class := Some [''link'']\<rparr>),
                     Obj (noFields\<lparr>item_str := Some ''click here''\<rparr>)]"
    by simp
  show ?thesis using composite_transform[OF len]
    by (simp add: firstClass_def firstHref_def resolveContent_def truthy_def orEmpty_def
          noFields_def)
qed

text \<open>
  C2 as stated fails at its own example: the code returns two children, both tagged
  \<open>a\<close> (the first item is a child as well, and the record items do not become spans),
  and not the single \<open>span\<close> child with content \<open>click here\<close>.
\<close>

theorem composite_example_counterexample:
  "transformMixedTagToHTMLObject
     [(''a'', Items [Obj (noFields\<lparr>item_href := Some ''https://x'', item_class := Some [''link'']\<rparr>),
                     Obj (noFields\<lparr>item_str := Some ''click here''\<rparr>)])] None
   = Inr (HTMLObject (Some ''a'') None (Some [''link'']) None (Some [[(''href'', ''https://x'')]])
            None None
            (Some [HTMLObject (Some ''a'') (Some (Text [])) (Some [''link'']) None None None None (Some []),
                   HTMLObject (Some ''a'') (Some (Text ''click here'')) (Some []) None None None None
                     (Some [])]))
   \<and> transformMixedTagToHTMLObject
     [(''a'', Items [Obj (noFields\<lparr>item_href := Some ''https://x'', item_class := Some [''link'']\<rparr>),
                     Obj (noFields\<lparr>item_str := Some ''click here''\<rparr>)])] None
   \<noteq> Inr (HTMLObject (Some ''a'') None (Some [''link'']) None (Some [[(''href'', ''https://x'')]])
            None None
            (Some [HTMLObject (Some ''span'') (Some (Text ''click here'')) None None None None None
                     None]))"
  by (simp add: firstClass_def firstHref_def resolveContent_def truthy_def orEmpty_def
        noFields_def)

section \<open>Properties of the renderer\<close>

text \<open>
  C5. A node whose tag is absent (or the empty string, which the code also treats as
  falsy) renders as the empty string. Any other node renders as the opening tag with
  the attributes in the order class, style, id, key, props, then the content, then the
  renderings of all children in order, then the closing tag: neither the content nor
  any child is dropped.
\<close>

theorem render_shape:
  "(tg = None \<or> tg = Some [] \<longrightarrow>
      renderHTMLObject (HTMLObject tg cont cl st ps ident ky chs) = [])
   \<and> (tg = Some t \<and> t \<noteq> [] \<longrightarrow>
      renderHTMLObject (HTMLObject tg cont cl st ps ident ky chs) =
        ''<'' @ t
        @ '' '' @ (if clsx (optList cl) = [] then []
                   else ''class='' @ dquote @ clsx (optList cl) @ dquote)
        @ '' '' @ (case st of None \<Rightarrow> [] | Some s \<Rightarrow> ''style='' @ dquote @ renderStyle s @ dquote)
        @ '' '' @ (if truthy ident then ''id='' @ dquote @ orEmpty ident @ dquote else [])
        @ '' '' @ (if truthy ky then ''key='' @ dquote @ orEmpty ky @ dquote else [])
        @ '' '' @ join '' '' (map renderProp (optList ps))
        @ ''>'' @ contentText cont @ concat (map renderHTMLObject (optList chs))
        @ ''</'' @ t @ ''>'')
   \<and> contentText None = [] \<and> contentText (Some (Text c)) = c"
  by (simp add: truthy_def orEmpty_def optList_def contentText_def Let_def
        split: option.splits)

theorem render_shape_witness:
  "renderHTMLObject (HTMLObject None (Some (Text ''lost'')) None None None None None None) = []
   \<and> renderHTMLObject
       (HTMLObject (Some ''p'') (Some (Text ''hi'')) None None (Some [[(''href'', ''https://x'')]]) None None
          (Some [HTMLObject (Some ''span'') (Some (Text ''x'')) None None None None None None,
                 HTMLObject (Some ''b'') (Some (Text ''y'')) None None None None None None]))
     = ''<p     href=https://x>hi<span     >x</span><b     >y</b></p>''"
  using
    render_shape[where tg = None and cont = "Some (Text ''lost'')" and cl = None and st = None
      and ps = None and ident = None and ky = None and chs = None]
    render_shape[where tg = "Some ''p''" and t = "''p''" and cont = "Some (Text ''hi'')" and cl = None
      and st = None and ps = "Some [[(''href'', ''https://x'')]]" and ident = None and ky = None
      and chs = "Some [HTMLObject (Some ''span'') (Some (Text ''x'')) None None None None None None,
                       HTMLObject (Some ''b'') (Some (Text ''y'')) None None None None None None]"]
  by (simp add: truthy_def orEmpty_def optList_def clsx_def renderProp_def contentText_def)

section \<open>Properties of the legend shorthand\<close>

text \<open>
  C8. For a shorthand object whose \<open>legend\<close> is a legend with an \<open>items\<close> array, the
  result is one \<open>div\<close> of class \<open>menu-item\<close> whose children are an \<open>h3\<close> holding the title
  (present exactly when the legend has a title, that is a non-empty one) followed by a
  \<open>ul\<close> with one \<open>li\<close> per legend item, in order; each \<open>li\<close> has exactly two \<open>span\<close>
  children, the colour swatch of class \<open>legend-color\<close> with the style
  \<open>background-color\<close> set to the item's colour, and the label of class \<open>legend-label\<close>
  whose content is the item's label.
\<close>

theorem legend_shape:
  "map_of data ''legend'' = Some (LegendObject legend) \<Longrightarrow> items legend = Some its \<Longrightarrow>
   parseShorthand data =
     Inr [HTMLObject (Some ''div'') None (Some [''menu-item'']) None None None None
            (Some ((case title legend of
                      None \<Rightarrow> []
                    | Some t \<Rightarrow>
                        if t = [] then []
                        else [HTMLObject (Some ''h3'') (Some (Text t)) None None None None None None])
                   @ [HTMLObject (Some ''ul'') None None None None None None
                        (Some (map (\<lambda>item.
                           HTMLObject (Some ''li'') None None None None None None
                             (Some [HTMLObject (Some ''span'') None (Some [''legend-color''])
                                      (Some [(''background-color'', color item)])
                                      None None None None,
                                    HTMLObject (Some ''span'') (Some (Text (label item)))
                                      (Some [''legend-label'']) None None None None None]))
                         its))]))]"
  by (simp add: parseShorthand_def truthy_def legendEntry_def split: option.splits)

theorem legend_shape_witness:
  "parseShorthand
     [(''legend'', LegendObject \<lparr>title = Some ''Key'',
                                  items = Some [\<lparr>color = ''#f00'', label = ''Fire''\<rparr>]\<rparr>)]
   = Inr [HTMLObject (Some ''div'') None (Some [''menu-item'']) None None None None
            (Some [HTMLObject (Some ''h3'') (Some (Text ''Key'')) None None None None None None,
                   HTMLObject (Some ''ul'') None None None None None None
                     (Some [HTMLObject (Some ''li'') None None None None None None
                              (Some [HTMLObject (Some ''span'') None (Some [''legend-color''])
                                       (Some [(''background-color'', ''#f00'')])
                                       None None None None,
                                     HTMLObject (Some ''span'') (Some (Text ''Fire''))
                                       (Some [''legend-label'']) None None None None None])])])]"
proof -
  have h1: "map_of [(''legend'', LegendObject \<lparr>title = Some ''Key'',
                       items = Some [\<lparr>color = ''#f00'', label = ''Fire''\<rparr>]\<rparr>)] ''legend''
          = Some (LegendObject \<lparr>title = Some ''Key'',
                       items = Some [\<lparr>color = ''#f00'', label = ''Fire''\<rparr>]\<rparr>)"
    by simp
  have h2: "items \<lparr>title = Some ''Key'', items = Some [\<lparr>color = ''#f00'', label = ''Fire''\<rparr>]\<rparr>
          = Some [\<lparr>color = ''#f00'', label = ''Fire''\<rparr>]"
    by simp
  show ?thesis using legend_shape[OF h1 h2] by simp
qed

text \<open>
  C9. \<open>parseShorthand\<close> throws \<open>Unsupported shorthand format\<close> on every object without a
  \<open>legend\<close> key, and \<open>parseLegend\<close> (hence \<open>parseShorthand\<close>) throws
  \<open>Invalid legend format\<close> on every legend without an \<open>items\<close> array; a node is
  returned only for a legend object that has its \<open>items\<close>.
\<close>

theorem shorthand_errors:
  "(map_of data ''legend'' = None \<longrightarrow> parseShorthand data = Inl UnsupportedShorthand)
   \<and> (map_of data ''legend'' = Some (LegendObject legend) \<and> items legend = None
        \<longrightarrow> parseLegend (LegendObject legend) = Inl InvalidLegend
            \<and> parseShorthand data = Inl InvalidLegend)
   \<and> (parseShorthand data = Inr ns
        \<longrightarrow> (\<exists>lg its. map_of data ''legend'' = Some (LegendObject lg) \<and> items lg = Some its))"
proof -
  have a: "map_of data ''legend'' = None \<longrightarrow> parseShorthand data = Inl UnsupportedShorthand"
    by (simp add: parseShorthand_def)
  have b: "map_of data ''legend'' = Some (LegendObject legend) \<and> items legend = None
        \<longrightarrow> parseLegend (LegendObject legend) = Inl InvalidLegend
            \<and> parseShorthand data = Inl InvalidLegend"
    by (simp add: parseShorthand_def)
  have c: "parseShorthand data = Inr ns
        \<longrightarrow> (\<exists>lg its. map_of data ''legend'' = Some (LegendObject lg) \<and> items lg = Some its)"
  proof (cases "map_of data ''legend''")
    case None
    then show ?thesis by (simp add: parseShorthand_def)
  next
    case (Some v)
    then show ?thesis
      by (cases v) (auto simp add: parseShorthand_def split: option.splits sum.splits)
  qed
  from a b c show ?thesis by blast
qed

theorem shorthand_errors_witness:
  "parseShorthand [(''chart'', Str ''bar'')] = Inl UnsupportedShorthand
   \<and> parseLegend (LegendObject \<lparr>title = Some ''Key'', items = None\<rparr>) = Inl InvalidLegend
   \<and> parseShorthand [(''legend'', LegendObject \<lparr>title = Some ''Key'', items = None\<rparr>)]
     = Inl InvalidLegend"
  using
    shorthand_errors[where data = "[(''chart'', Str ''bar'')]"]
    shorthand_errors[where data = "[(''legend'', LegendObject \<lparr>title = Some ''Key'', items = None\<rparr>)]"
      and legend = "\<lparr>title = Some ''Key'', items = None\<rparr>"]
  by simp

section \<open>Properties of the layer materializer\<close>

lemma syncIds_Un: "syncIds (A \<union> B) = syncIds A \<union> syncIds B"
  unfolding syncIds_def by blast

lemma registeredD:
  assumes "registered v G w w'"
  obtains ss ls where
    "uncaught w' = uncaught w"
    "sources w' = sources w @ ss" "distinct (map fst ss)"
    "set (map fst ss) \<inter> set (sourceIds w) = {}" "set (map fst ss) \<subseteq> syncIds G"
    "layers w' = layers w @ ls" "distinct (map spec_id ls)"
    "set (map spec_id ls) \<inter> set (layerIds w) = {}"
    "\<forall>lay\<in>set ls. \<exists>l\<in>G. data_type l \<noteq> GeoJSON \<and> spec_id lay = layer_id l
                  \<and> spec_visibility lay = layoutVisibility v l \<and> spec_paint lay = paintOf l"
    "syncIds G \<subseteq> set (sourceIds w') \<inter> set (layerIds w')"
proof -
  from assms[unfolded registered_def] show ?thesis
    by (elim conjE exE) (rule that)
qed

lemma registered_trans:
  assumes a: "registered v G1 w w1" and b: "registered v G2 w1 w2"
  shows "registered v (G1 \<union> G2) w w2"
proof -
  from a obtain ss1 ls1 where
    u1: "uncaught w1 = uncaught w" and
    s1: "sources w1 = sources w @ ss1" "distinct (map fst ss1)"
        "set (map fst ss1) \<inter> set (sourceIds w) = {}" "set (map fst ss1) \<subseteq> syncIds G1" and
    l1: "layers w1 = layers w @ ls1" "distinct (map spec_id ls1)"
        "set (map spec_id ls1) \<inter> set (layerIds w) = {}"
        "\<forall>lay\<in>set ls1. \<exists>l\<in>G1. data_type l \<noteq> GeoJSON \<and> spec_id lay = layer_id l
                  \<and> spec_visibility lay = layoutVisibility v l \<and> spec_paint lay = paintOf l" and
    m1: "syncIds G1 \<subseteq> set (sourceIds w1) \<inter> set (layerIds w1)"
    by (rule registeredD)
  from b obtain ss2 ls2 where
    u2: "uncaught w2 = uncaught w1" and
    s2: "sources w2 = sources w1 @ ss2" "distinct (map fst ss2)"
        "set (map fst ss2) \<inter> set (sourceIds w1) = {}" "set (map fst ss2) \<subseteq> syncIds G2" and
    l2: "layers w2 = layers w1 @ ls2" "distinct (map spec_id ls2)"
        "set (map spec_id ls2) \<inter> set (layerIds w1) = {}"
        "\<forall>lay\<in>set ls2. \<exists>l\<in>G2. data_type l \<noteq> GeoJSON \<and> spec_id lay = layer_id l
                  \<and> spec_visibility lay = layoutVisibility v l \<and> spec_paint lay = paintOf l" and
    m2: "syncIds G2 \<subseteq> set (sourceIds w2) \<inter> set (layerIds w2)"
    by (rule registeredD)
  have i1: "sourceIds w1 = sourceIds w @ map fst ss1" "layerIds w1 = layerIds w @ map spec_id ls1"
    by (simp_all add: sourceIds_def layerIds_def s1(1) l1(1))
  have i2: "sourceIds w2 = sourceIds w1 @ map fst ss2" "layerIds w2 = layerIds w1 @ map spec_id ls2"
    by (simp_all add: sourceIds_def layerIds_def s2(1) l2(1))
  have S: "sources w2 = sources w @ (ss1 @ ss2)" by (simp add: s1(1) s2(1))
  have Sd: "distinct (map fst (ss1 @ ss2))"
    using s1(2) s2(2) s2(3) unfolding i1 by auto
  have Si: "set (map fst (ss1 @ ss2)) \<inter> set (sourceIds w) = {}"
    using s1(3) s2(3) unfolding i1 by auto
  have Ss: "set (map fst (ss1 @ ss2)) \<subseteq> syncIds (G1 \<union> G2)"
    using s1(4) s2(4) unfolding syncIds_Un by auto
  have L: "layers w2 = layers w @ (ls1 @ ls2)" by (simp add: l1(1) l2(1))
  have Ld: "distinct (map spec_id (ls1 @ ls2))"
    using l1(2) l2(2) l2(3) unfolding i1 by auto
  have Li: "set (map spec_id (ls1 @ ls2)) \<inter> set (layerIds w) = {}"
    using l1(3) l2(3) unfolding i1 by auto
  have Lp: "\<forall>lay\<in>set (ls1 @ ls2). \<exists>l\<in>G1 \<union> G2. data_type l \<noteq> GeoJSON \<and> spec_id lay = layer_id l
                  \<and> spec_visibility lay = layoutVisibility v l \<and> spec_paint lay = paintOf l"
    using l1(4) l2(4) by (metis Un_iff set_append)
  have M: "syncIds (G1 \<union> G2) \<subseteq> set (sourceIds w2) \<inter> set (layerIds w2)"
    using m1 m2 unfolding syncIds_Un i2 by auto
  have U: "uncaught w2 = uncaught w" using u1 u2 by simp
  have A: "\<exists>ss. sources w2 = sources w @ ss \<and> distinct (map fst ss)
            \<and> set (map fst ss) \<inter> set (sourceIds w) = {}
            \<and> set (map fst ss) \<subseteq> syncIds (G1 \<union> G2)"
    using S Sd Si Ss by (intro exI[of _ "ss1 @ ss2"] conjI)
  have B: "\<exists>ls. layers w2 = layers w @ ls \<and> distinct (map spec_id ls)
            \<and> set (map spec_id ls) \<inter> set (layerIds w) = {}
            \<and> (\<forall>lay\<in>set ls. \<exists>l\<in>G1 \<union> G2. data_type l \<noteq> GeoJSON \<and> spec_id lay = layer_id l
                        \<and> spec_visibility lay = layoutVisibility v l
                        \<and> spec_paint lay = paintOf l)"
    using L Ld Li Lp by (intro exI[of _ "ls1 @ ls2"] conjI)
  show ?thesis unfolding registered_def
    using U A B M by (intro conjI)
qed


lemma getSource_None: "(getSource i w = None) = (i \<notin> set (sourceIds w))"
  by (simp add: getSource_def sourceIds_def map_of_eq_None_iff)

lemma getLayer_None: "(getLayer i w = None) = (i \<notin> set (layerIds w))"
  by (auto simp add: getLayer_def layerIds_def find_None_iff)

lemma addIfAbsent_result:
  assumes "spec_id l = i"
  shows "\<exists>w'. addIfAbsent i src l w = Inr w'
    \<and> sources w' = (if i \<in> set (sourceIds w) then sources w else sources w @ [(i, src)])
    \<and> layers w' = (if i \<in> set (layerIds w) then layers w else layers w @ [l])
    \<and> uncaught w' = uncaught w \<and> listeners w' = listeners w \<and> buttons w' = buttons w
    \<and> pending w' = pending w \<and> popups w' = popups w"
  using assms
  by (simp add: addIfAbsent_def andThen_def addSource_def addLayer_def getSource_None
        getLayer_None layerIds_def)

lemma registered_frame:
  "sources w' = sources w \<Longrightarrow> layers w' = layers w \<Longrightarrow> uncaught w' = uncaught w \<Longrightarrow>
   syncIds G = {} \<Longrightarrow> registered v G w w'"
  by (simp add: registered_def)

lemma addIfAbsent_registered:
  assumes "spec_id lay = layer_id l" and "data_type l \<noteq> GeoJSON"
    and "spec_visibility lay = layoutVisibility v l" and "spec_paint lay = paintOf l"
  shows "\<exists>w'. addIfAbsent (layer_id l) src lay w = Inr w' \<and> registered v {l} w w'"
proof -
  from addIfAbsent_result[OF assms(1), of src w] obtain w' where
    r: "addIfAbsent (layer_id l) src lay w = Inr w'" and
    s: "sources w' = (if layer_id l \<in> set (sourceIds w) then sources w
                      else sources w @ [(layer_id l, src)])" and
    l: "layers w' = (if layer_id l \<in> set (layerIds w) then layers w else layers w @ [lay])" and
    u: "uncaught w' = uncaught w"
    by blast
  have sy: "syncIds {l} = {layer_id l}" using assms(2) by (auto simp add: syncIds_def)
  have A: "\<exists>ss. sources w' = sources w @ ss \<and> distinct (map fst ss)
            \<and> set (map fst ss) \<inter> set (sourceIds w) = {}
            \<and> set (map fst ss) \<subseteq> syncIds {l}"
  proof (cases "layer_id l \<in> set (sourceIds w)")
    case True
    then show ?thesis using s by (intro exI[of _ "[]"]) simp
  next
    case False
    then show ?thesis using s sy by (intro exI[of _ "[(layer_id l, src)]"]) simp
  qed
  have B: "\<exists>ls. layers w' = layers w @ ls \<and> distinct (map spec_id ls)
            \<and> set (map spec_id ls) \<inter> set (layerIds w) = {}
            \<and> (\<forall>lay\<in>set ls. \<exists>l\<in>{l}. data_type l \<noteq> GeoJSON \<and> spec_id lay = layer_id l
                        \<and> spec_visibility lay = layoutVisibility v l
                        \<and> spec_paint lay = paintOf l)"
  proof (cases "layer_id l \<in> set (layerIds w)")
    case True
    then show ?thesis using l by (intro exI[of _ "[]"]) simp
  next
    case False
    then show ?thesis using l assms by (intro exI[of _ "[lay]"]) simp
  qed
  have M: "syncIds {l} \<subseteq> set (sourceIds w') \<inter> set (layerIds w')"
    using s l assms(1) unfolding sy by (simp add: sourceIds_def layerIds_def)
  have "registered v {l} w w'" unfolding registered_def using u A B M by (intro conjI)
  with r show ?thesis by blast
qed

lemma registerLayer_registered:
  "\<exists>w'. registerLayer v l w = Inr w' \<and> registered v {l} w w'"
proof (cases "data_type l")
  case GeoJSON
  then have "syncIds {l} = {}" by (simp add: syncIds_def)
  then show ?thesis using GeoJSON
    by (simp add: registerLayer_def registered_frame)
next
  case Raster
  then have ng: "data_type l \<noteq> GeoJSON" by simp
  show ?thesis using Raster
    by (simp add: registerLayer_def addIfAbsent_registered[OF _ ng])
next
  case Image
  then have ng: "data_type l \<noteq> GeoJSON" by simp
  show ?thesis using Image
    by (simp add: registerLayer_def addIfAbsent_registered[OF _ ng])
next
  case Vector
  then have ng: "data_type l \<noteq> GeoJSON" by simp
  show ?thesis using Vector
    by (simp add: registerLayer_def addIfAbsent_registered[OF _ ng])
qed

lemma foldl_on_frame:
  "sources (foldl (\<lambda>w' ev. on (ty ev) i (mk ev) w') w evs) = sources w
   \<and> layers (foldl (\<lambda>w' ev. on (ty ev) i (mk ev) w') w evs) = layers w
   \<and> uncaught (foldl (\<lambda>w' ev. on (ty ev) i (mk ev) w') w evs) = uncaught w"
  by (induction evs arbitrary: w) (simp_all add: on_def)

lemma wireEvents_frame:
  "sources (wireEvents l w) = sources w \<and> layers (wireEvents l w) = layers w
   \<and> uncaught (wireEvents l w) = uncaught w"
  by (simp add: wireEvents_def foldl_on_frame split: option.splits)

lemma addToggle_frame:
  "sources (addToggle l w) = sources w \<and> layers (addToggle l w) = layers w
   \<and> uncaught (addToggle l w) = uncaught w"
  by (simp add: addToggle_def)

lemma foldl_addToggle_frame:
  "sources (foldl (\<lambda>w' layer. addToggle layer w') w ls) = sources w
   \<and> layers (foldl (\<lambda>w' layer. addToggle layer w') w ls) = layers w
   \<and> uncaught (foldl (\<lambda>w' layer. addToggle layer w') w ls) = uncaught w"
  by (induction ls arbitrary: w) (simp_all add: addToggle_frame)

lemma registered_frame_right:
  assumes "registered v G w w1" and "sources w2 = sources w1" and "layers w2 = layers w1"
    and "uncaught w2 = uncaught w1"
  shows "registered v G w w2"
  using assms unfolding registered_def sourceIds_def layerIds_def by simp

lemma registered_frame_left:
  assumes "registered v G w1 w2" and "sources w1 = sources w" and "layers w1 = layers w"
    and "uncaught w1 = uncaught w"
  shows "registered v G w w2"
  using assms unfolding registered_def sourceIds_def layerIds_def by simp

lemma loop_body_registered:
  "\<exists>w'. andThen (registerLayer v l w) (\<lambda>w''. Inr (wireEvents l w'')) = Inr w'
        \<and> registered v {l} w w'"
proof -
  from registerLayer_registered[of v l w] obtain w1 where
    r: "registerLayer v l w = Inr w1" and g: "registered v {l} w w1" by blast
  have "registered v {l} w (wireEvents l w1)"
    using registered_frame_right[OF g] wireEvents_frame[of l w1] by blast
  then show ?thesis using r by (simp add: andThen_def)
qed

lemma forEach_registered:
  "\<exists>w'. forEach (\<lambda>layer w'. andThen (registerLayer v layer w')
                                (\<lambda>w''. Inr (wireEvents layer w''))) ls w = Inr w'
        \<and> registered v (set ls) w w'"
proof (induction ls arbitrary: w)
  case Nil
  then show ?case by (simp add: registered_frame syncIds_def)
next
  case (Cons l ls)
  from loop_body_registered[of v l w] obtain w1 where
    r: "andThen (registerLayer v l w) (\<lambda>w''. Inr (wireEvents l w'')) = Inr w1"
    and g: "registered v {l} w w1" by blast
  from Cons.IH[of w1] obtain w2 where
    r2: "forEach (\<lambda>layer w'. andThen (registerLayer v layer w')
                                (\<lambda>w''. Inr (wireEvents layer w''))) ls w1 = Inr w2"
    and g2: "registered v (set ls) w1 w2" by blast
  have "registered v ({l} \<union> set ls) w w2" by (rule registered_trans[OF g g2])
  then show ?case using r r2 by (simp add: andThen_def)
qed

lemma loadMapLayers_registered:
  "\<exists>w'. loadMapLayers (Some g) v w = Inr w' \<and> registered v (set g) w w'"
proof -
  let ?w0 = "foldl (\<lambda>w' layer. addToggle layer w') w g"
  from forEach_registered[of v g ?w0] obtain w' where
    r: "forEach (\<lambda>layer w'. andThen (registerLayer v layer w')
                                (\<lambda>w''. Inr (wireEvents layer w''))) g ?w0 = Inr w'"
    and h: "registered v (set g) ?w0 w'" by blast
  have "registered v (set g) w w'"
    using registered_frame_left[OF h] foldl_addToggle_frame[of w g] by blast
  then show ?thesis using r by (simp add: loadMapLayers_def)
qed

lemma uniqueIds_ids: "uniqueIds w = (distinct (sourceIds w) \<and> distinct (layerIds w))"
  by (simp add: uniqueIds_def sourceIds_def layerIds_def)

lemma keepsIds_refl: "keepsIds w w"
  by (simp add: keepsIds_def)

lemma keepsIds_trans: "keepsIds w w1 \<Longrightarrow> keepsIds w1 w2 \<Longrightarrow> keepsIds w w2"
  unfolding keepsIds_def by blast

lemma keepsIds_same:
  "sourceIds w' = sourceIds w \<Longrightarrow> layerIds w' = layerIds w \<Longrightarrow>
   (\<forall>err\<in>set (uncaught w'). duplicateId err \<longrightarrow> err \<in> set (uncaught w)) \<Longrightarrow> keepsIds w w'"
  by (simp add: keepsIds_def uniqueIds_ids)

lemma registered_keepsIds:
  assumes "registered v G w w'"
  shows "keepsIds w w'"
proof -
  from assms obtain ss ls where
    u: "uncaught w' = uncaught w" and
    s: "sources w' = sources w @ ss" "distinct (map fst ss)"
       "set (map fst ss) \<inter> set (sourceIds w) = {}" and
    l: "layers w' = layers w @ ls" "distinct (map spec_id ls)"
       "set (map spec_id ls) \<inter> set (layerIds w) = {}"
    by (rule registeredD)
  have i: "sourceIds w' = sourceIds w @ map fst ss" "layerIds w' = layerIds w @ map spec_id ls"
    by (simp_all add: sourceIds_def layerIds_def s(1) l(1))
  have "uniqueIds w \<longrightarrow> uniqueIds w'"
    unfolding uniqueIds_ids i using s(2,3) l(2,3) by auto
  then show ?thesis unfolding keepsIds_def i u by simp
qed

lemma count_one: "distinct xs \<Longrightarrow> i \<in> set xs \<Longrightarrow> length (filter (\<lambda>j. j = i) xs) = 1"
  by (induction xs) (auto simp add: filter_empty_conv)

lemma counts_one:
  "uniqueIds w \<Longrightarrow> i \<in> set (sourceIds w) \<Longrightarrow> i \<in> set (layerIds w) \<Longrightarrow>
   sourceCount i w = 1 \<and> layerCount i w = 1"
  using count_one[of "sourceIds w" i] count_one[of "layerIds w" i]
  by (simp add: uniqueIds_ids sourceCount_def layerCount_def sourceIds_def layerIds_def)

lemma collect_error: "collect rs = Inl err \<Longrightarrow> Inl err \<in> set rs"
proof (induction rs)
  case Nil
  then show ?case by simp
next
  case (Cons r rs)
  then show ?case by (cases r) (auto split: sum.splits)
qed

lemma transform_single_no_error: "transformMixedTagToHTMLObject [(t, Items [c])] e \<noteq> Inl err"
  by simp

lemma transform_error:
  assumes "transformMixedTagToHTMLObject tg e = Inl err"
  shows "err = TypeError"
proof (cases tg)
  case Nil
  with assms show ?thesis by simp
next
  case (Cons kv rest)
  obtain t v where kv: "kv = (t, v)" by (cases kv)
  show ?thesis
  proof (cases v)
    case (Single x)
    with assms Cons kv show ?thesis by simp
  next
    case (Items its)
    show ?thesis
    proof (cases "1 < length its")
      case True
      from composite_no_error[OF True, of t rest e err] assms Cons kv Items show ?thesis by simp
    next
      case False
      with assms Cons kv Items show ?thesis
        by (simp split: if_splits list.splits)
    qed
  qed
qed

lemma runListener_keepsIds:
  "runListener e l w = Inr w' \<Longrightarrow>
     sources w' = sources w \<and> layers w' = layers w \<and> uncaught w' = uncaught w"
  by (cases l) (auto simp add: Let_def on_def split: sum.splits if_splits)

lemma runListener_error: "runListener e l w = Inl err \<Longrightarrow> err = TypeError"
proof (cases l)
  case (PopupListener p i ev)
  assume "runListener e l w = Inl err"
  with PopupListener have
    "collect (map (\<lambda>tg. transformMixedTagToHTMLObject tg (Some e)) (event_content ev)) = Inl err"
    by (simp add: Let_def split: sum.splits if_splits)
  from collect_error[OF this] obtain tg where
    "transformMixedTagToHTMLObject tg (Some e) = Inl err" by auto
  then show ?thesis by (rule transform_error)
next
  case (RemoveListener p)
  assume "runListener e l w = Inl err"
  with RemoveListener show ?thesis by simp
qed

lemma dispatch_keepsIds: "keepsIds w (dispatch e ls w)"
proof (induction ls arbitrary: w)
  case Nil
  then show ?case by (simp add: keepsIds_refl)
next
  case (Cons l ls)
  show ?case
  proof (cases "runListener e l w")
    case (Inl err)
    from runListener_error[OF Inl] have "err = TypeError" .
    then show ?thesis using Inl by (simp add: keepsIds_def sourceIds_def layerIds_def uniqueIds_def)
  next
    case (Inr w1)
    from runListener_keepsIds[OF Inr] have "keepsIds w w1"
      by (intro keepsIds_same) (simp_all add: sourceIds_def layerIds_def)
    from keepsIds_trans[OF this Cons.IH[of w1]] show ?thesis using Inr by simp
  qed
qed

lemma fire_keepsIds: "keepsIds w (fire ty i e w)"
  by (simp add: fire_def dispatch_keepsIds)

lemma click_keepsIds: "keepsIds w (click b w)"
  by (intro keepsIds_same)
     (simp_all add: click_def onclick_def Let_def setLayoutProperty_def sourceIds_def layerIds_def
        comp_def if_distrib[of spec_id] cong: if_cong)


lemma fixGeometry_error: "fixGeometry f = Inl err \<Longrightarrow> err = TypeError"
  by (auto simp add: fixGeometry_def split: if_splits option.splits)

lemma geojsonLoaded_error:
  assumes "geojsonLoaded d l v w = Inl err"
  shows "err = TypeError"
proof (cases "geo_features d")
  case None
  with assms show ?thesis by (simp add: geojsonLoaded_def)
next
  case (Some fs)
  show ?thesis
  proof (cases "collect (map fixGeometry fs)")
    case (Inl err')
    from collect_error[OF Inl] obtain f where "fixGeometry f = Inl err'" by auto
    then have "err' = TypeError" by (rule fixGeometry_error)
    with assms Some Inl show ?thesis by (simp add: geojsonLoaded_def)
  next
    case (Inr fs')
    let ?lay = "\<lparr>spec_id = layer_id l, spec_type = layer_type l,
                  spec_source = layer_id l, spec_source_layer = None,
                  spec_paint = paintOf l,
                  spec_visibility = layoutVisibility v l\<rparr>"
    have "spec_id ?lay = layer_id l" by simp
    from addIfAbsent_result[OF this, of "GeoJSONSource (d\<lparr>geo_features := Some fs'\<rparr>)" w]
    show ?thesis using assms Some Inr by (auto simp add: geojsonLoaded_def)
  qed
qed

lemma geojsonLoaded_result:
  assumes "geojsonLoaded d l v w = Inr w'"
  shows "(\<exists>src. sources w' = (if layer_id l \<in> set (sourceIds w) then sources w
                              else sources w @ [(layer_id l, src)]))
       \<and> (\<exists>lay. layers w' = (if layer_id l \<in> set (layerIds w) then layers w
                              else layers w @ [lay])
             \<and> spec_id lay = layer_id l
             \<and> spec_visibility lay = layoutVisibility v l \<and> spec_paint lay = paintOf l)
       \<and> uncaught w' = uncaught w"
proof (cases "geo_features d")
  case None
  with assms show ?thesis by (simp add: geojsonLoaded_def)
next
  case (Some fs)
  show ?thesis
  proof (cases "collect (map fixGeometry fs)")
    case (Inl err')
    with assms Some show ?thesis by (simp add: geojsonLoaded_def)
  next
    case (Inr fs')
    let ?lay = "\<lparr>spec_id = layer_id l, spec_type = layer_type l,
                  spec_source = layer_id l, spec_source_layer = None,
                  spec_paint = paintOf l,
                  spec_visibility = layoutVisibility v l\<rparr>"
    let ?src = "GeoJSONSource (d\<lparr>geo_features := Some fs'\<rparr>)"
    have e: "spec_id ?lay = layer_id l" by simp
    have r: "addIfAbsent (layer_id l) ?src ?lay w = Inr w'"
      using assms Some Inr by (simp add: geojsonLoaded_def)
    from addIfAbsent_result[OF e, of ?src w] r have
      s: "sources w' = (if layer_id l \<in> set (sourceIds w) then sources w
                              else sources w @ [(layer_id l, ?src)])" and
      la: "layers w' = (if layer_id l \<in> set (layerIds w) then layers w
                              else layers w @ [?lay])" and
      u: "uncaught w' = uncaught w"
      by auto
    have A: "\<exists>src. sources w' = (if layer_id l \<in> set (sourceIds w) then sources w
                              else sources w @ [(layer_id l, src)])"
      using s by (rule exI[of _ ?src])
    have B: "\<exists>lay. layers w' = (if layer_id l \<in> set (layerIds w) then layers w
                              else layers w @ [lay])
             \<and> spec_id lay = layer_id l
             \<and> spec_visibility lay = layoutVisibility v l \<and> spec_paint lay = paintOf l"
      using la by (intro exI[of _ ?lay]) simp
    from A B u show ?thesis by (intro conjI)
  qed
qed

lemma geojsonLoaded_keepsIds:
  assumes "geojsonLoaded d l v w = Inr w'"
  shows "keepsIds w w' \<and> layer_id l \<in> set (sourceIds w') \<and> layer_id l \<in> set (layerIds w')"
proof -
  from geojsonLoaded_result[OF assms] obtain src lay where
    s: "sources w' = (if layer_id l \<in> set (sourceIds w) then sources w
                              else sources w @ [(layer_id l, src)])" and
    la: "layers w' = (if layer_id l \<in> set (layerIds w) then layers w
                              else layers w @ [lay])" and
    i: "spec_id lay = layer_id l" and u: "uncaught w' = uncaught w"
    by blast
  have si: "sourceIds w' = (if layer_id l \<in> set (sourceIds w) then sourceIds w
                              else sourceIds w @ [layer_id l])"
    using s by (simp add: sourceIds_def)
  have li: "layerIds w' = (if layer_id l \<in> set (layerIds w) then layerIds w
                              else layerIds w @ [layer_id l])"
    using la i by (simp add: layerIds_def)
  show ?thesis unfolding keepsIds_def uniqueIds_ids si li u by auto
qed

lemma geojsonLoaded_again:
  assumes "geojsonLoaded d l v w = Inr w'"
  shows "geojsonLoaded d l v w' = Inr w'"
proof (cases "geo_features d")
  case None
  with assms show ?thesis by (simp add: geojsonLoaded_def)
next
  case (Some fs)
  show ?thesis
  proof (cases "collect (map fixGeometry fs)")
    case (Inl err')
    with assms Some show ?thesis by (simp add: geojsonLoaded_def)
  next
    case (Inr fs')
    from geojsonLoaded_keepsIds[OF assms] obtain src lay where
      "getSource (layer_id l) w' = Some src" "getLayer (layer_id l) w' = Some lay"
      using getSource_None[of "layer_id l" w'] getLayer_None[of "layer_id l" w'] by auto
    then show ?thesis using Some Inr
      by (simp add: geojsonLoaded_def addIfAbsent_def andThen_def)
  qed
qed

lemma fetchDone_keepsIds: "keepsIds w (fetchDone k res w)"
proof (cases "k < length (pending w)")
  case False
  then show ?thesis by (simp add: fetchDone_def keepsIds_refl)
next
  case True
  obtain l v where p: "pending w ! k = (l, v)" by (cases "pending w ! k")
  let ?w1 = "w\<lparr>pending := take k (pending w) @ drop (Suc k) (pending w)\<rparr>"
  have k1: "keepsIds w ?w1"
    by (intro keepsIds_same) (simp_all add: sourceIds_def layerIds_def)
  show ?thesis
  proof (cases res)
    case None
    then show ?thesis using True p
      by (simp add: fetchDone_def keepsIds_def uniqueIds_def sourceIds_def layerIds_def)
  next
    case (Some d)
    show ?thesis
    proof (cases "geojsonLoaded d l v ?w1")
      case (Inl err)
      from geojsonLoaded_error[OF Inl] have "err = TypeError" .
      then show ?thesis using True p Some Inl
        by (simp add: fetchDone_def keepsIds_def uniqueIds_def sourceIds_def layerIds_def)
    next
      case (Inr w2)
      from geojsonLoaded_keepsIds[OF Inr] have "keepsIds ?w1 w2" by simp
      from keepsIds_trans[OF k1 this] show ?thesis using True p Some Inr
        by (simp add: fetchDone_def)
    qed
  qed
qed

lemma step_keepsIds:
  "\<exists>w'. step a w = Inr w' \<and> keepsIds w w'
     \<and> (\<forall>g v. a = Load (Some g) v \<longrightarrow>
            syncIds (set g) \<subseteq> set (sourceIds w') \<inter> set (layerIds w'))"
proof (cases a)
  case (Load g v)
  show ?thesis
  proof (cases g)
    case None
    then show ?thesis using Load by (simp add: loadMapLayers_def keepsIds_refl)
  next
    case (Some ls)
    from loadMapLayers_registered[of ls v w] obtain w' where
      r: "loadMapLayers (Some ls) v w = Inr w'" and g: "registered v (set ls) w w'" by blast
    from g have "syncIds (set ls) \<subseteq> set (sourceIds w') \<inter> set (layerIds w')"
      by (rule registeredD)
    then show ?thesis using Load Some r registered_keepsIds[OF g] by simp
  qed
next
  case (FetchDone k res)
  then show ?thesis by (simp add: fetchDone_keepsIds)
next
  case (ClickToggle b)
  then show ?thesis by (simp add: click_keepsIds)
next
  case (Fire ty i e)
  then show ?thesis by (simp add: fire_keepsIds)
qed

lemma run_keepsIds:
  "\<exists>w'. run acts w = Inr w' \<and> keepsIds w w'
     \<and> (\<forall>g v. Load (Some g) v \<in> set acts \<longrightarrow>
            syncIds (set g) \<subseteq> set (sourceIds w') \<inter> set (layerIds w'))"
proof (induction acts arbitrary: w)
  case Nil
  then show ?case by (simp add: run_def keepsIds_refl)
next
  case (Cons a acts)
  from step_keepsIds[of a w] obtain w1 where
    s: "step a w = Inr w1" and k: "keepsIds w w1" and
    m: "\<forall>g v. a = Load (Some g) v \<longrightarrow>
            syncIds (set g) \<subseteq> set (sourceIds w1) \<inter> set (layerIds w1)"
    by blast
  from Cons.IH[of w1] obtain w2 where
    r: "run acts w1 = Inr w2" and k2: "keepsIds w1 w2" and
    m2: "\<forall>g v. Load (Some g) v \<in> set acts \<longrightarrow>
            syncIds (set g) \<subseteq> set (sourceIds w2) \<inter> set (layerIds w2)"
    by blast
  have sub: "set (sourceIds w1) \<subseteq> set (sourceIds w2)" "set (layerIds w1) \<subseteq> set (layerIds w2)"
    using k2 by (simp_all add: keepsIds_def)
  have M: "\<forall>g v. Load (Some g) v \<in> set (a # acts) \<longrightarrow>
            syncIds (set g) \<subseteq> set (sourceIds w2) \<inter> set (layerIds w2)"
  proof (intro allI impI)
    fix g v assume "Load (Some g) v \<in> set (a # acts)"
    then consider "a = Load (Some g) v" | "Load (Some g) v \<in> set acts" by auto
    then show "syncIds (set g) \<subseteq> set (sourceIds w2) \<inter> set (layerIds w2)"
    proof cases
      case 1
      with m have "syncIds (set g) \<subseteq> set (sourceIds w1) \<inter> set (layerIds w1)" by blast
      with sub show ?thesis by blast
    next
      case 2
      with m2 show ?thesis by blast
    qed
  qed
  have "run (a # acts) w = Inr w2" using s r by (simp add: run_def andThen_def)
  with keepsIds_trans[OF k k2] M show ?case by blast
qed

lemma disjoint_subset_empty: "A \<inter> B = {} \<Longrightarrow> A \<subseteq> C \<Longrightarrow> C \<subseteq> B \<inter> D \<Longrightarrow> A = {}"
  by blast

lemma disjoint_subset_empty': "A \<inter> B = {} \<Longrightarrow> A \<subseteq> C \<Longrightarrow> C \<subseteq> D \<inter> B \<Longrightarrow> A = {}"
  by blast

lemma registered_again:
  assumes "registered v G w w'" and "syncIds G \<subseteq> set (sourceIds w) \<inter> set (layerIds w)"
  shows "sources w' = sources w \<and> layers w' = layers w"
proof -
  from assms(1) obtain ss ls where
    s: "sources w' = sources w @ ss" "set (map fst ss) \<inter> set (sourceIds w) = {}"
       "set (map fst ss) \<subseteq> syncIds G" and
    l: "layers w' = layers w @ ls" "set (map spec_id ls) \<inter> set (layerIds w) = {}"
       "\<forall>lay\<in>set ls. \<exists>l\<in>G. data_type l \<noteq> GeoJSON \<and> spec_id lay = layer_id l
                  \<and> spec_visibility lay = layoutVisibility v l \<and> spec_paint lay = paintOf l"
    by (rule registeredD)
  have "set (map fst ss) = {}" by (rule disjoint_subset_empty[OF s(2,3) assms(2)])
  then have ss: "ss = []" by simp
  have "set (map spec_id ls) \<subseteq> syncIds G"
  proof
    fix i assume "i \<in> set (map spec_id ls)"
    then obtain lay where "lay \<in> set ls" "i = spec_id lay" by auto
    with l(3) obtain la where "la \<in> G" "data_type la \<noteq> GeoJSON" "i = layer_id la" by auto
    then show "i \<in> syncIds G" by (auto simp add: syncIds_def)
  qed
  then have "set (map spec_id ls) = {}" by (rule disjoint_subset_empty'[OF l(2) _ assms(2)])
  then have "ls = []" by simp
  with ss s(1) l(1) show ?thesis by simp
qed

lemma syncIds_mem: "l \<in> G \<Longrightarrow> data_type l \<noteq> GeoJSON \<Longrightarrow> layer_id l \<in> syncIds G"
  by (auto simp add: syncIds_def)

lemma load_twice:
  assumes "uniqueIds w"
  shows "\<exists>w1 w2. loadMapLayers (Some g) v w = Inr w1 \<and> loadMapLayers (Some g) v' w1 = Inr w2
            \<and> sources w2 = sources w1 \<and> layers w2 = layers w1 \<and> uncaught w2 = uncaught w
            \<and> uniqueIds w2
            \<and> (\<forall>l\<in>set g. data_type l \<noteq> GeoJSON \<longrightarrow>
                  sourceCount (layer_id l) w2 = 1 \<and> layerCount (layer_id l) w2 = 1)"
proof -
  from loadMapLayers_registered[of g v w] obtain w1 where
    r1: "loadMapLayers (Some g) v w = Inr w1" and g1: "registered v (set g) w w1" by blast
  from loadMapLayers_registered[of g v' w1] obtain w2 where
    r2: "loadMapLayers (Some g) v' w1 = Inr w2" and g2: "registered v' (set g) w1 w2" by blast
  from g1 have m1: "syncIds (set g) \<subseteq> set (sourceIds w1) \<inter> set (layerIds w1)"
    by (rule registeredD)
  from g1 have u1: "uncaught w1 = uncaught w" by (rule registeredD)
  from g2 have u2: "uncaught w2 = uncaught w1" by (rule registeredD)
  from registered_again[OF g2 m1] have same: "sources w2 = sources w1" "layers w2 = layers w1"
    by simp_all
  have q1: "uniqueIds w1" using registered_keepsIds[OF g1] assms by (simp add: keepsIds_def)
  have q2: "uniqueIds w2" using q1 same by (simp add: uniqueIds_def)
  have ids: "sourceIds w2 = sourceIds w1" "layerIds w2 = layerIds w1"
    using same by (simp_all add: sourceIds_def layerIds_def)
  have c: "\<forall>l\<in>set g. data_type l \<noteq> GeoJSON \<longrightarrow>
                  sourceCount (layer_id l) w2 = 1 \<and> layerCount (layer_id l) w2 = 1"
  proof (intro ballI impI)
    fix l assume "l \<in> set g" "data_type l \<noteq> GeoJSON"
    then have "layer_id l \<in> syncIds (set g)" by (rule syncIds_mem)
    with m1 have "layer_id l \<in> set (sourceIds w2)" "layer_id l \<in> set (layerIds w2)"
      unfolding ids by blast+
    then show "sourceCount (layer_id l) w2 = 1 \<and> layerCount (layer_id l) w2 = 1"
      by (rule counts_one[OF q2])
  qed
  have u: "uncaught w2 = uncaught w" using u1 u2 by simp
  show ?thesis using r1 r2 same u q2 c by (intro exI[of _ w1] exI[of _ w2] conjI)
qed

lemma run_counts:
  assumes "uniqueIds w"
  shows "\<exists>w'. run acts w = Inr w' \<and> uniqueIds w'
            \<and> (\<forall>err\<in>set (uncaught w'). duplicateId err \<longrightarrow> err \<in> set (uncaught w))
            \<and> (\<forall>g v l. Load (Some g) v \<in> set acts \<and> l \<in> set g \<and> data_type l \<noteq> GeoJSON
                 \<longrightarrow> sourceCount (layer_id l) w' = 1 \<and> layerCount (layer_id l) w' = 1)"
proof -
  from run_keepsIds[of acts w] obtain w' where
    r: "run acts w = Inr w'" and k: "keepsIds w w'" and
    m: "\<forall>g v. Load (Some g) v \<in> set acts \<longrightarrow>
            syncIds (set g) \<subseteq> set (sourceIds w') \<inter> set (layerIds w')"
    by blast
  have q: "uniqueIds w'" using k assms by (simp add: keepsIds_def)
  have e: "\<forall>err\<in>set (uncaught w'). duplicateId err \<longrightarrow> err \<in> set (uncaught w)"
    using k by (simp add: keepsIds_def)
  have c: "\<forall>g v l. Load (Some g) v \<in> set acts \<and> l \<in> set g \<and> data_type l \<noteq> GeoJSON
                 \<longrightarrow> sourceCount (layer_id l) w' = 1 \<and> layerCount (layer_id l) w' = 1"
  proof (intro allI impI)
    fix g v l
    assume h: "Load (Some g) v \<in> set acts \<and> l \<in> set g \<and> data_type l \<noteq> GeoJSON"
    then have "layer_id l \<in> syncIds (set g)" by (simp add: syncIds_mem)
    with m h have "layer_id l \<in> set (sourceIds w')" "layer_id l \<in> set (layerIds w')"
      by blast+
    then show "sourceCount (layer_id l) w' = 1 \<and> layerCount (layer_id l) w' = 1"
      by (rule counts_one[OF q])
  qed
  show ?thesis using r q e c by (intro exI[of _ w'] conjI)
qed

lemma geojson_once:
  assumes "uniqueIds w"
  shows "\<forall>d l vis w1. geojsonLoaded d l vis w = Inr w1 \<longrightarrow>
             uniqueIds w1 \<and> sourceCount (layer_id l) w1 = 1 \<and> layerCount (layer_id l) w1 = 1
             \<and> geojsonLoaded d l vis w1 = Inr w1"
proof (intro allI impI)
  fix d l vis w1 assume r: "geojsonLoaded d l vis w = Inr w1"
  from geojsonLoaded_keepsIds[OF r] have k: "keepsIds w w1"
    and i: "layer_id l \<in> set (sourceIds w1)" "layer_id l \<in> set (layerIds w1)" by simp_all
  have q: "uniqueIds w1" using k assms by (simp add: keepsIds_def)
  from counts_one[OF q i] geojsonLoaded_again[OF r] q
  show "uniqueIds w1 \<and> sourceCount (layer_id l) w1 = 1 \<and> layerCount (layer_id l) w1 = 1
             \<and> geojsonLoaded d l vis w1 = Inr w1" by simp
qed

lemma geojson_no_duplicate_error:
  "\<forall>d l vis err. geojsonLoaded d l vis w = Inl err \<longrightarrow> \<not> duplicateId err"
proof (intro allI impI)
  fix d l vis err assume "geojsonLoaded d l vis w = Inl err"
  from geojsonLoaded_error[OF this] show "\<not> duplicateId err" by simp
qed

lemma collect_fixGeometry:
  "list_all (\<lambda>f. geometry f \<noteq> None \<or> feature_properties f \<noteq> None) fs \<Longrightarrow>
   \<exists>fs'. collect (map fixGeometry fs) = Inr fs'"
proof (induction fs)
  case Nil
  then show ?case by simp
next
  case (Cons f fs)
  then obtain fs' where t: "collect (map fixGeometry fs) = Inr fs'" by auto
  from Cons.prems have "geometry f \<noteq> None \<or> feature_properties f \<noteq> None" by simp
  then have "\<exists>f'. fixGeometry f = Inr f'"
    by (cases "geometry f"; cases "feature_properties f") (simp_all add: fixGeometry_def)
  then obtain f' where "fixGeometry f = Inr f'" by blast
  with t show ?case by simp
qed

lemma geojsonLoaded_readable:
  assumes "readable d"
  shows "\<exists>w'. geojsonLoaded d l v w = Inr w' \<and> pending w' = pending w"
proof -
  from assms obtain fs where f: "geo_features d = Some fs"
    and a: "list_all (\<lambda>f. geometry f \<noteq> None \<or> feature_properties f \<noteq> None) fs"
    by (auto simp add: readable_def split: option.splits)
  from collect_fixGeometry[OF a] obtain fs' where c: "collect (map fixGeometry fs) = Inr fs'"
    by blast
  let ?lay = "\<lparr>spec_id = layer_id l, spec_type = layer_type l,
                  spec_source = layer_id l, spec_source_layer = None,
                  spec_paint = paintOf l,
                  spec_visibility = layoutVisibility v l\<rparr>"
  have e: "spec_id ?lay = layer_id l" by simp
  from addIfAbsent_result[OF e, of "GeoJSONSource (d\<lparr>geo_features := Some fs'\<rparr>)" w]
  obtain w' where "addIfAbsent (layer_id l) (GeoJSONSource (d\<lparr>geo_features := Some fs'\<rparr>)) ?lay w
      = Inr w'" and "pending w' = pending w" by blast
  then show ?thesis using f c by (simp add: geojsonLoaded_def)
qed

lemma foldl_on_pending:
  "pending (foldl (\<lambda>w' ev. on (ty ev) i (mk ev) w') w evs) = pending w"
  by (induction evs arbitrary: w) (simp_all add: on_def)

lemma wireEvents_pending: "pending (wireEvents l w) = pending w"
  by (simp add: wireEvents_def foldl_on_pending split: option.splits)

lemma foldl_addToggle_pending:
  "pending (foldl (\<lambda>w' layer. addToggle layer w') w ls) = pending w"
  by (induction ls arbitrary: w) (simp_all add: addToggle_def)

lemma addIfAbsent_pending:
  assumes "addIfAbsent i src lay w = Inr w'" and "spec_id lay = i"
  shows "pending w' = pending w"
  using addIfAbsent_result[OF assms(2), of src w] assms(1) by auto

lemma registerLayer_pending:
  assumes "registerLayer v l w = Inr w'"
  shows "pending w' = pending w @ map (\<lambda>l. (l, v)) (geojsonLayers [l])"
proof (cases "data_type l")
  case GeoJSON
  with assms show ?thesis by (auto simp add: registerLayer_def geojsonLayers_def)
next
  case Raster
  with assms show ?thesis
    by (auto simp add: registerLayer_def geojsonLayers_def dest!: addIfAbsent_pending)
next
  case Image
  with assms show ?thesis
    by (auto simp add: registerLayer_def geojsonLayers_def dest!: addIfAbsent_pending)
next
  case Vector
  with assms show ?thesis
    by (auto simp add: registerLayer_def geojsonLayers_def dest!: addIfAbsent_pending)
qed

lemma geojsonLayers_Cons: "geojsonLayers (l # ls) = geojsonLayers [l] @ geojsonLayers ls"
  by (simp add: geojsonLayers_def)

lemma forEach_pending:
  "forEach (\<lambda>layer w'. andThen (registerLayer v layer w')
                                (\<lambda>w''. Inr (wireEvents layer w''))) ls w = Inr w' \<Longrightarrow>
   pending w' = pending w @ map (\<lambda>l. (l, v)) (geojsonLayers ls)"
proof (induction ls arbitrary: w)
  case Nil
  then show ?case by (simp add: geojsonLayers_def)
next
  case (Cons l ls)
  from registerLayer_registered[of v l w] obtain w1 where
    r: "registerLayer v l w = Inr w1" by blast
  have p1: "pending (wireEvents l w1) = pending w @ map (\<lambda>l. (l, v)) (geojsonLayers [l])"
    using registerLayer_pending[OF r] by (simp add: wireEvents_pending)
  from Cons.prems r have
    "forEach (\<lambda>layer w'. andThen (registerLayer v layer w')
                                (\<lambda>w''. Inr (wireEvents layer w''))) ls (wireEvents l w1) = Inr w'"
    by (simp add: andThen_def)
  from Cons.IH[OF this] p1 show ?case
    by (simp add: geojsonLayers_Cons[of l ls])
qed

lemma loadMapLayers_pending:
  "loadMapLayers (Some g) v w = Inr w' \<Longrightarrow>
   pending w' = pending w @ map (\<lambda>l. (l, v)) (geojsonLayers g)"
  using forEach_pending[of v g "foldl (\<lambda>w' layer. addToggle layer w') w g" w']
  by (simp add: loadMapLayers_def foldl_addToggle_pending)


lemma run_append: "run (a @ b) w = andThen (run a w) (run b)"
proof (induction a arbitrary: w)
  case Nil
  then show ?case by (simp add: run_def andThen_def)
next
  case (Cons x a)
  then show ?case by (cases "step x w") (simp_all add: run_def andThen_def)
qed

lemma run_Cons: "run (a # acts) w = andThen (step a w) (run acts)"
  by (cases "step a w") (simp_all add: run_def andThen_def)

lemma count_le_one: "distinct xs \<Longrightarrow> length (filter (\<lambda>j. j = i) xs) \<le> 1"
  by (induction xs) (auto simp add: filter_empty_conv)

lemma counts_le_one: "uniqueIds w \<Longrightarrow> sourceCount i w \<le> 1 \<and> layerCount i w \<le> 1"
  using count_le_one[of "sourceIds w" i] count_le_one[of "layerIds w" i]
  by (simp add: uniqueIds_ids sourceCount_def layerCount_def sourceIds_def layerIds_def)

lemma keepsIds_pending: "keepsIds w (w\<lparr>pending := ps\<rparr>)"
  by (intro keepsIds_same) (simp_all add: sourceIds_def layerIds_def)

lemma settle_first:
  assumes "pending w = (l, v) # ps" and "readable d"
  shows "\<exists>w'. fetchDone 0 (Some d) w = w' \<and> keepsIds w w' \<and> pending w' = ps
           \<and> layer_id l \<in> set (sourceIds w') \<and> layer_id l \<in> set (layerIds w')"
proof -
  let ?w1 = "w\<lparr>pending := ps\<rparr>"
  from geojsonLoaded_readable[OF assms(2), of l v ?w1] obtain w2 where
    r: "geojsonLoaded d l v ?w1 = Inr w2" and p: "pending w2 = pending ?w1" by blast
  from geojsonLoaded_keepsIds[OF r] have k: "keepsIds ?w1 w2"
    and i: "layer_id l \<in> set (sourceIds w2)" "layer_id l \<in> set (layerIds w2)" by simp_all
  have f: "fetchDone 0 (Some d) w = w2" using assms(1) r by (simp add: fetchDone_def)
  have "keepsIds w w2" by (rule keepsIds_trans[OF keepsIds_pending k])
  with f p i show ?thesis by simp
qed

lemma settle_all:
  assumes "list_all readable ds" and "length ds = length (pending w)"
  shows "\<exists>w'. run (map (\<lambda>d. FetchDone 0 (Some d)) ds) w = Inr w' \<and> keepsIds w w'
           \<and> pending w' = []
           \<and> (\<forall>l v. (l, v) \<in> set (pending w) \<longrightarrow>
                 layer_id l \<in> set (sourceIds w') \<and> layer_id l \<in> set (layerIds w'))"
  using assms
proof (induction ds arbitrary: w)
  case Nil
  then show ?case by (simp add: run_def keepsIds_refl)
next
  case (Cons d ds)
  from Cons.prems(2) obtain l v ps where p: "pending w = (l, v) # ps"
    by (cases "pending w") auto
  from Cons.prems(1) have rd: "readable d" and rds: "list_all readable ds" by simp_all
  from settle_first[OF p rd] obtain w1 where
    f: "fetchDone 0 (Some d) w = w1" and k1: "keepsIds w w1" and p1: "pending w1 = ps"
    and i1: "layer_id l \<in> set (sourceIds w1)" "layer_id l \<in> set (layerIds w1)" by blast
  have len: "length ds = length (pending w1)" using Cons.prems(2) p p1 by simp
  from Cons.IH[OF rds len] obtain w' where
    r: "run (map (\<lambda>d. FetchDone 0 (Some d)) ds) w1 = Inr w'" and k2: "keepsIds w1 w'"
    and e: "pending w' = []"
    and m: "\<forall>l v. (l, v) \<in> set (pending w1) \<longrightarrow>
                 layer_id l \<in> set (sourceIds w') \<and> layer_id l \<in> set (layerIds w')"
    by blast
  have sub: "set (sourceIds w1) \<subseteq> set (sourceIds w')" "set (layerIds w1) \<subseteq> set (layerIds w')"
    using k2 by (simp_all add: keepsIds_def)
  have R: "run (map (\<lambda>d. FetchDone 0 (Some d)) (d # ds)) w = Inr w'"
    using f r by (simp add: run_Cons andThen_def)
  have M: "\<forall>l' v'. (l', v') \<in> set (pending w) \<longrightarrow>
                 layer_id l' \<in> set (sourceIds w') \<and> layer_id l' \<in> set (layerIds w')"
  proof (intro allI impI)
    fix l' v' assume "(l', v') \<in> set (pending w)"
    then consider "(l', v') = (l, v)" | "(l', v') \<in> set (pending w1)" using p p1 by auto
    then show "layer_id l' \<in> set (sourceIds w') \<and> layer_id l' \<in> set (layerIds w')"
    proof cases
      case 1
      then have "l' = l" by simp
      with i1 sub show ?thesis by blast
    next
      case 2
      with m show ?thesis by blast
    qed
  qed
  show ?case using R keepsIds_trans[OF k1 k2] e M by (intro exI[of _ w'] conjI)
qed

lemma load_twice_settled:
  assumes u: "uniqueIds w" and rd: "list_all readable ds"
    and len: "length ds = length (pending w) + 2 * length (filter (\<lambda>l. data_type l = GeoJSON) g)"
  shows "\<exists>w3. run (Load (Some g) v # Load (Some g) v' # map (\<lambda>d. FetchDone 0 (Some d)) ds) w
                = Inr w3
           \<and> uniqueIds w3 \<and> pending w3 = []
           \<and> (\<forall>l\<in>set g. sourceCount (layer_id l) w3 = 1 \<and> layerCount (layer_id l) w3 = 1)"
proof -
  from loadMapLayers_registered[of g v w] obtain w1 where
    r1: "loadMapLayers (Some g) v w = Inr w1" and g1: "registered v (set g) w w1" by blast
  from loadMapLayers_registered[of g v' w1] obtain w2 where
    r2: "loadMapLayers (Some g) v' w1 = Inr w2" and g2: "registered v' (set g) w1 w2" by blast
  have p2: "pending w2 = pending w @ map (\<lambda>l. (l, v)) (geojsonLayers g)
                          @ map (\<lambda>l. (l, v')) (geojsonLayers g)"
    using loadMapLayers_pending[OF r1] loadMapLayers_pending[OF r2] by simp
  have l2: "length ds = length (pending w2)" using len p2 by (simp add: geojsonLayers_def)
  from settle_all[OF rd l2] obtain w3 where
    r3: "run (map (\<lambda>d. FetchDone 0 (Some d)) ds) w2 = Inr w3" and k3: "keepsIds w2 w3"
    and e: "pending w3 = []"
    and m: "\<forall>l v. (l, v) \<in> set (pending w2) \<longrightarrow>
                 layer_id l \<in> set (sourceIds w3) \<and> layer_id l \<in> set (layerIds w3)"
    by blast
  note k1 = registered_keepsIds[OF g1] and k2 = registered_keepsIds[OF g2]
  have k: "keepsIds w1 w3" by (rule keepsIds_trans[OF k2 k3])
  have q: "uniqueIds w3" using keepsIds_trans[OF k1 k] u by (simp add: keepsIds_def)
  have sub: "set (sourceIds w1) \<subseteq> set (sourceIds w3)" "set (layerIds w1) \<subseteq> set (layerIds w3)"
    using k by (simp_all add: keepsIds_def)
  from g1 have m1: "syncIds (set g) \<subseteq> set (sourceIds w1) \<inter> set (layerIds w1)"
    by (rule registeredD)
  have R: "run (Load (Some g) v # Load (Some g) v' # map (\<lambda>d. FetchDone 0 (Some d)) ds) w
                = Inr w3"
    using r1 r2 r3 by (simp add: run_Cons andThen_def)
  have c: "\<forall>l\<in>set g. sourceCount (layer_id l) w3 = 1 \<and> layerCount (layer_id l) w3 = 1"
  proof
    fix l assume lg: "l \<in> set g"
    have "layer_id l \<in> set (sourceIds w3) \<and> layer_id l \<in> set (layerIds w3)"
    proof (cases "data_type l = GeoJSON")
      case True
      with lg have "(l, v) \<in> set (pending w2)" unfolding p2 by (simp add: geojsonLayers_def)
      with m show ?thesis by blast
    next
      case False
      with lg have "layer_id l \<in> syncIds (set g)" by (simp add: syncIds_mem)
      with m1 sub show ?thesis by blast
    qed
    then show "sourceCount (layer_id l) w3 = 1 \<and> layerCount (layer_id l) w3 = 1"
      using counts_one[OF q] by blast
  qed
  show ?thesis using R q e c by (intro exI[of _ w3] conjI)
qed

lemma geojson_readable_once:
  assumes "uniqueIds w"
  shows "\<forall>d l vis. readable d \<longrightarrow>
           (\<exists>w1. geojsonLoaded d l vis w = Inr w1 \<and> uniqueIds w1
                 \<and> sourceCount (layer_id l) w1 = 1 \<and> layerCount (layer_id l) w1 = 1
                 \<and> geojsonLoaded d l vis w1 = Inr w1)"
proof (intro allI impI)
  fix d l vis assume "readable d"
  from geojsonLoaded_readable[OF this, of l vis w] obtain w1 where
    r: "geojsonLoaded d l vis w = Inr w1" by blast
  from geojson_once[OF assms, rule_format, OF r] r
  show "\<exists>w1. geojsonLoaded d l vis w = Inr w1 \<and> uniqueIds w1
                 \<and> sourceCount (layer_id l) w1 = 1 \<and> layerCount (layer_id l) w1 = 1
                 \<and> geojsonLoaded d l vis w1 = Inr w1"
    by (intro exI[of _ w1]) simp
qed

lemma run_at_most_one:
  assumes "uniqueIds w"
  shows "\<exists>w'. run acts w = Inr w' \<and> (\<forall>i. sourceCount i w' \<le> 1 \<and> layerCount i w' \<le> 1)"
proof -
  from run_counts[OF assms, of acts] obtain w' where
    r: "run acts w = Inr w'" and q: "uniqueIds w'" by blast
  from counts_le_one[OF q] r show ?thesis by blast
qed

text \<open>
  C3, as the code has it. On a map whose sources and layers have pairwise different
  ids, \<open>loadMapLayers\<close> registers a source or a layer only under an id that is free, so
  it never fails, and a second call with the same group leaves the sources and the
  layers exactly as the first call left them. After the two calls there is at most
  one source and one layer under every id: exactly one for every raster, image and
  vector layer of the group as soon as the call returns, and exactly one for every
  layer of the group, geojson included, once the fetches have settled with documents
  the callback can read. A geojson layer is registered only by the callback of its
  fetch: on a readable document the callback succeeds, leaves exactly one source and
  one layer under the layer's id, and changes nothing when it runs again; it never
  ends in a duplicate-id error. All of this holds along any sequence of calls,
  settled fetches, clicks and events: no step fails, the ids stay pairwise different
  and no duplicate-id error reaches the event loop.
\<close>

theorem idempotent_registration:
  assumes "uniqueIds w"
  shows "(\<exists>w1 w2. loadMapLayers (Some g) v w = Inr w1 \<and> loadMapLayers (Some g) v' w1 = Inr w2
            \<and> sources w2 = sources w1 \<and> layers w2 = layers w1 \<and> uncaught w2 = uncaught w
            \<and> uniqueIds w2
            \<and> (\<forall>l\<in>set g. data_type l \<noteq> GeoJSON \<longrightarrow>
                  sourceCount (layer_id l) w2 = 1 \<and> layerCount (layer_id l) w2 = 1))
       \<and> (\<exists>w'. run acts w = Inr w' \<and> uniqueIds w'
            \<and> (\<forall>err\<in>set (uncaught w'). duplicateId err \<longrightarrow> err \<in> set (uncaught w))
            \<and> (\<forall>g' v'' l. Load (Some g') v'' \<in> set acts \<and> l \<in> set g' \<and> data_type l \<noteq> GeoJSON
                 \<longrightarrow> sourceCount (layer_id l) w' = 1 \<and> layerCount (layer_id l) w' = 1))
       \<and> (\<forall>d l vis w1. geojsonLoaded d l vis w = Inr w1 \<longrightarrow>
             uniqueIds w1 \<and> sourceCount (layer_id l) w1 = 1 \<and> layerCount (layer_id l) w1 = 1
             \<and> geojsonLoaded d l vis w1 = Inr w1)
       \<and> (\<forall>d l vis err. geojsonLoaded d l vis w = Inl err \<longrightarrow> \<not> duplicateId err)
       \<and> (\<exists>w'. run acts w = Inr w' \<and> (\<forall>i. sourceCount i w' \<le> 1 \<and> layerCount i w' \<le> 1))
       \<and> (\<forall>d l vis. readable d \<longrightarrow>
             (\<exists>w1. geojsonLoaded d l vis w = Inr w1 \<and> uniqueIds w1
                   \<and> sourceCount (layer_id l) w1 = 1 \<and> layerCount (layer_id l) w1 = 1
                   \<and> geojsonLoaded d l vis w1 = Inr w1))
       \<and> (list_all readable ds
            \<and> length ds = length (pending w)
                            + 2 * length (filter (\<lambda>l. data_type l = GeoJSON) g)
           \<longrightarrow> (\<exists>w3. run (Load (Some g) v # Load (Some g) v'
                             # map (\<lambda>d. FetchDone 0 (Some d)) ds) w = Inr w3
                   \<and> uniqueIds w3 \<and> pending w3 = []
                   \<and> (\<forall>l\<in>set g. sourceCount (layer_id l) w3 = 1
                                   \<and> layerCount (layer_id l) w3 = 1)))"
proof -
  have settled: "list_all readable ds
            \<and> length ds = length (pending w)
                            + 2 * length (filter (\<lambda>l. data_type l = GeoJSON) g)
           \<longrightarrow> (\<exists>w3. run (Load (Some g) v # Load (Some g) v'
                             # map (\<lambda>d. FetchDone 0 (Some d)) ds) w = Inr w3
                   \<and> uniqueIds w3 \<and> pending w3 = []
                   \<and> (\<forall>l\<in>set g. sourceCount (layer_id l) w3 = 1
                                   \<and> layerCount (layer_id l) w3 = 1))"
    using load_twice_settled[OF assms, of ds g v v'] by blast
  show ?thesis
    using load_twice[OF assms, of g v v'] run_counts[OF assms, of acts] geojson_once[OF assms]
      geojson_no_duplicate_error[of w] run_at_most_one[OF assms, of acts]
      geojson_readable_once[OF assms] settled
    by (intro conjI)
qed

text \<open>
  On a new map, a group of a geojson layer and a raster layer, loaded twice, with both
  fetches settling on a document of one feature without geometry: one source and one
  layer under each of the two ids.
\<close>

theorem idempotent_registration_witness:
  "\<exists>w3. run [Load (Some [(emptyLayer GeoJSON ''pts'')\<lparr>url := Some ''/pts.json''\<rparr>, emptyLayer Raster ''tiles'']) False,
               Load (Some [(emptyLayer GeoJSON ''pts'')\<lparr>url := Some ''/pts.json''\<rparr>, emptyLayer Raster ''tiles'']) False,
               FetchDone 0 (Some \<lparr>geo_features = Some [\<lparr>geometry = None,
                feature_properties = Some \<lparr>longitude = 1, latitude = 2\<rparr>\<rparr>]\<rparr>),
               FetchDone 0 (Some \<lparr>geo_features = Some [\<lparr>geometry = None,
                feature_properties = Some \<lparr>longitude = 1, latitude = 2\<rparr>\<rparr>]\<rparr>)]
          (newWorld ''map'' []) = Inr w3
        \<and> uniqueIds w3 \<and> pending w3 = []
        \<and> sourceCount ''pts'' w3 = 1 \<and> layerCount ''pts'' w3 = 1
        \<and> sourceCount ''tiles'' w3 = 1 \<and> layerCount ''tiles'' w3 = 1"
proof -
  let ?p = "(emptyLayer GeoJSON ''pts'')\<lparr>url := Some ''/pts.json''\<rparr>"
  let ?t = "emptyLayer Raster ''tiles''"
  let ?d = "\<lparr>geo_features = Some [\<lparr>geometry = None,
                feature_properties = Some \<lparr>longitude = 1, latitude = 2\<rparr>\<rparr>]\<rparr>"
  let ?g = "[?p, ?t]"
  have u: "uniqueIds (newWorld ''map'' [])" by (simp add: uniqueIds_def newWorld_def)
  have h: "list_all readable [?d, ?d]
            \<and> length [?d, ?d] = length (pending (newWorld ''map'' []))
                            + 2 * length (filter (\<lambda>l. data_type l = GeoJSON) ?g)"
    by (simp add: readable_def newWorld_def emptyLayer_def)
  have "list_all readable [?d, ?d]
            \<and> length [?d, ?d] = length (pending (newWorld ''map'' []))
                            + 2 * length (filter (\<lambda>l. data_type l = GeoJSON) ?g)
           \<longrightarrow> (\<exists>w3. run (Load (Some ?g) False # Load (Some ?g) False
                             # map (\<lambda>d. FetchDone 0 (Some d)) [?d, ?d]) (newWorld ''map'' [])
                        = Inr w3
                   \<and> uniqueIds w3 \<and> pending w3 = []
                   \<and> (\<forall>l\<in>set ?g. sourceCount (layer_id l) w3 = 1
                                   \<and> layerCount (layer_id l) w3 = 1))"
    using idempotent_registration[OF u, of ?g False False "[]" "[?d, ?d]"] by blast
  with h obtain w3 where
    r: "run (Load (Some ?g) False # Load (Some ?g) False
               # map (\<lambda>d. FetchDone 0 (Some d)) [?d, ?d]) (newWorld ''map'' []) = Inr w3"
    and q: "uniqueIds w3" and e: "pending w3 = []"
    and c: "\<forall>l\<in>set ?g. sourceCount (layer_id l) w3 = 1 \<and> layerCount (layer_id l) w3 = 1"
    by blast
  from c have "sourceCount ''pts'' w3 = 1 \<and> layerCount ''pts'' w3 = 1
        \<and> sourceCount ''tiles'' w3 = 1 \<and> layerCount ''tiles'' w3 = 1"
    by (simp add: emptyLayer_def)
  with r q e show ?thesis by (intro exI[of _ w3]) simp
qed

text \<open>
  C3 as stated fails for a geojson layer. After two calls with the group of one
  geojson layer on a new map there is no source and no layer under its id, only two
  fetches in flight; and when both fetches fail there is none for good.
\<close>

theorem geojson_group_counterexample:
  "(case run [Load (Some [(emptyLayer GeoJSON ''pts'')\<lparr>url := Some ''/pts.json''\<rparr>]) False,
              Load (Some [(emptyLayer GeoJSON ''pts'')\<lparr>url := Some ''/pts.json''\<rparr>]) False] (newWorld ''map'' []) of
      Inl err \<Rightarrow> None
    | Inr w' \<Rightarrow> Some (sourceCount ''pts'' w', layerCount ''pts'' w', length (pending w')))
   = Some (0, 0, 2)
   \<and> (case run [Load (Some [(emptyLayer GeoJSON ''pts'')\<lparr>url := Some ''/pts.json''\<rparr>]) False,
              Load (Some [(emptyLayer GeoJSON ''pts'')\<lparr>url := Some ''/pts.json''\<rparr>]) False,
              FetchDone 0 None, FetchDone 0 None] (newWorld ''map'' []) of
      Inl err \<Rightarrow> None
    | Inr w' \<Rightarrow> Some (sourceCount ''pts'' w', layerCount ''pts'' w', length (pending w')))
   = Some (0, 0, 0)"
  by (simp add: run_def andThen_def loadMapLayers_def registerLayer_def addToggle_def
        wireEvents_def newWorld_def emptyLayer_def fetchDone_def sourceCount_def
        layerCount_def)

lemma load_layers:
  "\<exists>w' ls. loadMapLayers (Some g) v w = Inr w' \<and> layers w' = layers w @ ls
      \<and> (\<forall>lay\<in>set ls. \<exists>l\<in>set g. spec_id lay = layer_id l
            \<and> spec_visibility lay =
                (if v then ''visible'' else if visible l = Some True then ''visible'' else ''none'')
            \<and> spec_paint lay = (case paint l of None \<Rightarrow> [] | Some p \<Rightarrow> p))
      \<and> (\<forall>l\<in>set g. data_type l \<noteq> GeoJSON \<longrightarrow> layer_id l \<in> set (layerIds w'))"
proof -
  from loadMapLayers_registered[of g v w] obtain w' where
    r: "loadMapLayers (Some g) v w = Inr w'" and h: "registered v (set g) w w'" by blast
  from h obtain ls where
    l: "layers w' = layers w @ ls"
       "\<forall>lay\<in>set ls. \<exists>l\<in>set g. data_type l \<noteq> GeoJSON \<and> spec_id lay = layer_id l
                  \<and> spec_visibility lay = layoutVisibility v l \<and> spec_paint lay = paintOf l"
    and m: "syncIds (set g) \<subseteq> set (sourceIds w') \<inter> set (layerIds w')"
    by (rule registeredD)
  have a: "\<forall>lay\<in>set ls. \<exists>l\<in>set g. spec_id lay = layer_id l
            \<and> spec_visibility lay =
                (if v then ''visible'' else if visible l = Some True then ''visible'' else ''none'')
            \<and> spec_paint lay = (case paint l of None \<Rightarrow> [] | Some p \<Rightarrow> p)"
  proof
    fix lay assume "lay \<in> set ls"
    with l(2) obtain la where la: "la \<in> set g" "spec_id lay = layer_id la"
      "spec_visibility lay = layoutVisibility v la" "spec_paint lay = paintOf la" by blast
    show "\<exists>l\<in>set g. spec_id lay = layer_id l
            \<and> spec_visibility lay =
                (if v then ''visible'' else if visible l = Some True then ''visible'' else ''none'')
            \<and> spec_paint lay = (case paint l of None \<Rightarrow> [] | Some p \<Rightarrow> p)"
      using la(2,3,4) unfolding layoutVisibility_def paintOf_def
      by (intro bexI[OF _ la(1)] conjI)
  qed
  have b: "\<forall>l\<in>set g. data_type l \<noteq> GeoJSON \<longrightarrow> layer_id l \<in> set (layerIds w')"
  proof (intro ballI impI)
    fix l assume "l \<in> set g" "data_type l \<noteq> GeoJSON"
    then have "layer_id l \<in> syncIds (set g)" by (rule syncIds_mem)
    with m show "layer_id l \<in> set (layerIds w')" by blast
  qed
  show ?thesis using r l(1) a b by (intro exI[of _ w'] exI[of _ ls] conjI)
qed

lemma geojson_layer:
  "\<forall>d l w1. geojsonLoaded d l v w = Inr w1 \<longrightarrow>
      layers w1 = layers w
      \<or> (\<exists>lay. layers w1 = layers w @ [lay] \<and> spec_id lay = layer_id l
            \<and> spec_visibility lay =
                (if v then ''visible'' else if visible l = Some True then ''visible'' else ''none'')
            \<and> spec_paint lay = (case paint l of None \<Rightarrow> [] | Some p \<Rightarrow> p))"
proof (intro allI impI)
  fix d l w1 assume "geojsonLoaded d l v w = Inr w1"
  then have "\<exists>lay. layers w1 = (if layer_id l \<in> set (layerIds w) then layers w
                              else layers w @ [lay])
             \<and> spec_id lay = layer_id l
             \<and> spec_visibility lay = layoutVisibility v l \<and> spec_paint lay = paintOf l"
    by (rule conjunct1[OF conjunct2[OF geojsonLoaded_result]])
  then obtain lay where
    lay: "layers w1 = (if layer_id l \<in> set (layerIds w) then layers w else layers w @ [lay])"
    "spec_id lay = layer_id l" "spec_visibility lay = layoutVisibility v l"
    "spec_paint lay = paintOf l" by (elim exE conjE)
  show "layers w1 = layers w
      \<or> (\<exists>lay. layers w1 = layers w @ [lay] \<and> spec_id lay = layer_id l
            \<and> spec_visibility lay =
                (if v then ''visible'' else if visible l = Some True then ''visible'' else ''none'')
            \<and> spec_paint lay = (case paint l of None \<Rightarrow> [] | Some p \<Rightarrow> p))"
  proof (cases "layer_id l \<in> set (layerIds w)")
    case True
    with lay(1) show ?thesis by simp
  next
    case False
    with lay(1) have "layers w1 = layers w @ [lay]" by simp
    with lay(2,3,4) show ?thesis unfolding layoutVisibility_def paintOf_def
      by (intro disjI2 exI[of _ lay] conjI)
  qed
qed

text \<open>
  C7. Every layer that \<open>loadMapLayers\<close> adds to the map belongs to a layer of the
  group with the same id, its layout visibility is \<open>visible\<close> when the \<open>visibility\<close>
  argument is true and otherwise \<open>visible\<close> exactly when the \<open>visible\<close> field of that
  layer is true and \<open>none\<close> if not, and its paint is the paint of that layer, or the
  empty object when it has none; every raster, image and vector layer of the group
  has its layer afterwards. The layer that the callback of a geojson fetch adds has
  the same visibility and paint.
\<close>

theorem initial_visibility_and_paint:
  "(\<exists>w' ls. loadMapLayers (Some g) v w = Inr w' \<and> layers w' = layers w @ ls
      \<and> (\<forall>lay\<in>set ls. \<exists>l\<in>set g. spec_id lay = layer_id l
            \<and> spec_visibility lay =
                (if v then ''visible'' else if visible l = Some True then ''visible'' else ''none'')
            \<and> spec_paint lay = (case paint l of None \<Rightarrow> [] | Some p \<Rightarrow> p))
      \<and> (\<forall>l\<in>set g. data_type l \<noteq> GeoJSON \<longrightarrow> layer_id l \<in> set (layerIds w')))
   \<and> (\<forall>d l w1. geojsonLoaded d l v w = Inr w1 \<longrightarrow>
      layers w1 = layers w
      \<or> (\<exists>lay. layers w1 = layers w @ [lay] \<and> spec_id lay = layer_id l
            \<and> spec_visibility lay =
                (if v then ''visible'' else if visible l = Some True then ''visible'' else ''none'')
            \<and> spec_paint lay = (case paint l of None \<Rightarrow> [] | Some p \<Rightarrow> p)))"
  using load_layers[of g v w] geojson_layer[of v w] by (intro conjI)

text \<open>
  On a new map: a raster layer without \<open>visible\<close> and without \<open>paint\<close> is registered
  with visibility \<open>none\<close> and the empty paint; with the \<open>visibility\<close> argument true, a
  vector layer with \<open>visible: false\<close> and a paint is registered \<open>visible\<close> with that paint.
\<close>

theorem initial_visibility_and_paint_witness:
  "(\<exists>w'. loadMapLayers (Some [emptyLayer Raster ''tiles'']) False (newWorld ''map'' []) = Inr w'
        \<and> map spec_visibility (layers w') = [''none''] \<and> map spec_paint (layers w') = [[]])
   \<and> (\<exists>w'. loadMapLayers
              (Some [(emptyLayer Vector ''roads'')
                       \<lparr>visible := Some False, paint := Some [(''line-color'', ''#888'')]\<rparr>])
              True (newWorld ''map'' []) = Inr w'
        \<and> map spec_visibility (layers w') = [''visible'']
        \<and> map spec_paint (layers w') = [[(''line-color'', ''#888'')]])"
  using
    initial_visibility_and_paint[of "[emptyLayer Raster ''tiles'']" False "newWorld ''map'' []"]
    initial_visibility_and_paint[of "[(emptyLayer Vector ''roads'')
                       \<lparr>visible := Some False, paint := Some [(''line-color'', ''#888'')]\<rparr>]"
      True "newWorld ''map'' []"]
  by (simp add: loadMapLayers_def registerLayer_def addIfAbsent_def andThen_def addSource_def
        addLayer_def getSource_def getLayer_def addToggle_def wireEvents_def newWorld_def
        emptyLayer_def layoutVisibility_def paintOf_def orEmpty_def orDefault_def)

section \<open>The toggle control and the hover popup\<close>

lemma find_map_set:
  "find (\<lambda>l. spec_id l = i) (map (\<lambda>l. if spec_id l = i then l\<lparr>spec_visibility := v\<rparr> else l) ls)
   = map_option (\<lambda>l. l\<lparr>spec_visibility := v\<rparr>) (find (\<lambda>l. spec_id l = i) ls)"
  by (induction ls) simp_all

lemma getLayoutProperty_set:
  "getLayoutProperty i (setLayoutProperty i v w) = (if getLayer i w = None then None else Some v)"
  by (simp add: getLayoutProperty_def setLayoutProperty_def getLayer_def find_map_set
        option.map_comp comp_def split: option.splits)

lemma getLayoutProperty_buttons:
  "getLayoutProperty i (w\<lparr>buttons := bs\<rparr>) = getLayoutProperty i w"
  by (simp add: getLayoutProperty_def getLayer_def)

lemma click_agrees:
  assumes "b < length (buttons w)" and "attached (buttons w ! b)"
    and "getLayer (target (buttons w ! b)) w = Some lay"
  shows "(className (buttons (click b w) ! b) = ''active'')
       = (getLayoutProperty (target (buttons (click b w) ! b)) (click b w) = Some ''visible'')"
proof (cases "getLayoutProperty (target (buttons w ! b)) w = Some ''visible''")
  case True
  have "click b w = (setLayoutProperty (target (buttons w ! b)) ''none'' w)
          \<lparr>buttons := (buttons w)[b := (buttons w ! b)\<lparr>className := []\<rparr>]\<rparr>"
    using True assms(1,2) by (simp add: click_def onclick_def Let_def)
  then show ?thesis using assms(1,3)
    by (simp add: getLayoutProperty_buttons getLayoutProperty_set)
next
  case False
  have "click b w = (setLayoutProperty (target (buttons w ! b)) ''visible'' w)
          \<lparr>buttons := (buttons w)[b := (buttons w ! b)\<lparr>className := ''active''\<rparr>]\<rparr>"
    using False assms(1,2) by (simp add: click_def onclick_def Let_def)
  then show ?thesis using assms(1,3)
    by (simp add: getLayoutProperty_buttons getLayoutProperty_set)
qed

text \<open>
  C4 fails on the code. The first loop sets the class of a toggle button from
  \<open>layer.visible\<close> alone, while the layout of the layer also looks at the \<open>visibility\<close>
  argument. On a new map whose menu exists, loading a raster layer with \<open>toggle: true\<close>
  and \<open>visible: false\<close> with \<open>visibility = true\<close> leaves the button, appended to the
  menu, without the \<open>active\<close> class, and the layer \<open>visible\<close>.
\<close>

theorem toggle_diverges_under_default_visible:
  "(case loadMapLayers
           (Some [(emptyLayer Raster ''tiles'')\<lparr>toggle := Some True, visible := Some False\<rparr>])
           True (newWorld ''map'' [''map-menu'']) of
      Inl err \<Rightarrow> None
    | Inr w' \<Rightarrow> Some (map className (buttons w'), map attached (buttons w'),
                       getLayoutProperty ''tiles'' w'))
   = Some ([[]], [True], Some ''visible'')"
  by (simp add: loadMapLayers_def registerLayer_def addIfAbsent_def andThen_def addSource_def
        addLayer_def getSource_def getLayer_def addToggle_def wireEvents_def newWorld_def
        emptyLayer_def layoutVisibility_def paintOf_def orEmpty_def orDefault_def
        getLayoutProperty_def)

lemma load_hover:
  "loadMapLayers
     (Some [(emptyLayer Raster ''tiles'')
              \<lparr>mouseEvent := Some [\<lparr>event_type = Mousemove, event_content = []\<rparr>]\<rparr>])
     False (newWorld ''map'' []) = Inr w1 \<Longrightarrow>
   listeners w1 = [(Mousemove, ''tiles'',
                    PopupListener 0 ''tiles'' \<lparr>event_type = Mousemove, event_content = []\<rparr>)]"
  by (auto simp add: loadMapLayers_def registerLayer_def addIfAbsent_def andThen_def
        addSource_def addLayer_def getSource_def getLayer_def addToggle_def wireEvents_def
        newWorld_def emptyLayer_def layoutVisibility_def paintOf_def orEmpty_def orDefault_def
        on_def)

lemma fire_hover:
  assumes "listeners w = (Mousemove, i, PopupListener p i \<lparr>event_type = Mousemove, event_content = []\<rparr>)
              # replicate n (Mouseleave, i, RemoveListener p)"
  shows "listeners (fire Mousemove i e w) = (Mousemove, i, PopupListener p i \<lparr>event_type = Mousemove, event_content = []\<rparr>)
              # replicate (Suc n) (Mouseleave, i, RemoveListener p)"
  using assms by (simp add: fire_def on_def Let_def replicate_append_same)

lemma fires_hover:
  assumes "listeners w = [(Mousemove, i, PopupListener p i \<lparr>event_type = Mousemove, event_content = []\<rparr>)]"
  shows "listeners ((fire Mousemove i e ^^ n) w) = (Mousemove, i, PopupListener p i \<lparr>event_type = Mousemove, event_content = []\<rparr>)
              # replicate n (Mouseleave, i, RemoveListener p)"
proof (induction n)
  case 0
  then show ?case using assms by simp
next
  case (Suc n)
  then show ?case using fire_hover[of "(fire Mousemove i e ^^ n) w" i p n e] by simp
qed

text \<open>
  C6 fails on the code. The \<open>mouseleave\<close> listener is registered inside the listener
  of the \<open>mousemove\<close> binding, once per event: after loading a layer with one
  \<open>mousemove\<close> binding on a new map there is no \<open>mouseleave\<close> listener on the layer,
  and after \<open>n\<close> \<open>mousemove\<close> events on it there are \<open>n\<close>.
\<close>

theorem mouseleave_listeners_grow:
  "\<exists>w1. loadMapLayers
           (Some [(emptyLayer Raster ''tiles'')
              \<lparr>mouseEvent := Some [\<lparr>event_type = Mousemove, event_content = []\<rparr>]\<rparr>])
           False (newWorld ''map'' []) = Inr w1
        \<and> mouseleaveCount ''tiles'' w1 = 0
        \<and> (\<forall>n. mouseleaveCount ''tiles'' ((fire Mousemove ''tiles'' e ^^ n) w1) = n)"
proof -
  from loadMapLayers_registered obtain w1 where
    r: "loadMapLayers
           (Some [(emptyLayer Raster ''tiles'')
              \<lparr>mouseEvent := Some [\<lparr>event_type = Mousemove, event_content = []\<rparr>]\<rparr>])
           False (newWorld ''map'' []) = Inr w1"
    by blast
  note l = load_hover[OF r]
  have z: "mouseleaveCount ''tiles'' w1 = 0" using l by (simp add: mouseleaveCount_def)
  have g: "\<forall>n. mouseleaveCount ''tiles'' ((fire Mousemove ''tiles'' e ^^ n) w1) = n"
  proof
    fix n
    show "mouseleaveCount ''tiles'' ((fire Mousemove ''tiles'' e ^^ n) w1) = n"
      unfolding mouseleaveCount_def fires_hover[OF l] by simp
  qed
  show ?thesis using r z g by (intro exI[of _ w1] conjI)
qed

end
